theory Spec2Isabelle
  imports Complex_Main
begin

section \<open>Strings and exceptions\<close>

text \<open>
  The program is \<^verbatim>\<open>src/main.py\<close>: a command-line driver (\<^verbatim>\<open>main\<close>), a boolean-flag
  parser (\<^verbatim>\<open>str2bool\<close>) and the bootstrap loop with its coefficient cache
  (\<^verbatim>\<open>cte_boostrap\<close>).

  A Python \<^verbatim>\<open>str\<close> is modelled as a \<open>string\<close> whose characters are the code points
  below 256. On these, \<^verbatim>\<open>str.lower()\<close> moves the ASCII capitals \<open>A..Z\<close> (65..90) and
  the Latin-1 capitals (192..222 without the multiplication sign 215) up by 32 and leaves
  every other character alone. Strings with code points from 256 on are outside the model.
\<close>

definition lower_char :: "char \<Rightarrow> char" where
  "lower_char c =
     (let n = (of_char c :: nat)
      in if (65 \<le> n \<and> n \<le> 90) \<or> (192 \<le> n \<and> n \<le> 222 \<and> n \<noteq> 215)
         then char_of (n + 32) else c)"

definition lower :: "string \<Rightarrow> string" where
  "lower s = map lower_char s"

text \<open>\<^verbatim>\<open>sub in s\<close> on strings: \<open>sub\<close> occurs in \<open>s\<close> as a contiguous block.\<close>

fun begins :: "string \<Rightarrow> string \<Rightarrow> bool" where
  "begins [] s = True"
| "begins (p # ps) [] = False"
| "begins (p # ps) (c # cs) = (p = c \<and> begins ps cs)"

fun str_in :: "string \<Rightarrow> string \<Rightarrow> bool" where
  "str_in sub [] = (sub = [])"
| "str_in sub (c # cs) = (begins sub (c # cs) \<or> str_in sub cs)"

text \<open>
  Exceptions are values. \<open>ExternalError\<close> stands for whatever an external collaborator
  (pandas, numpy, statsmodels, the \<^verbatim>\<open>data\<close> and \<^verbatim>\<open>models\<close> modules) raises.
\<close>

datatype error =
    ArgumentTypeError string
  | ValueError string
  | NameError string
  | KeyError string
  | IndexError
  | ZeroDivisionError
  | TypeError
  | FileNotFoundError string
  | ExternalError string

section \<open>The boolean-flag parser\<close>

text \<open>
  \<^verbatim>\<open>str2bool(v)\<close>, lines 13 to 22. The argument is a \<^verbatim>\<open>bool\<close> or a \<^verbatim>\<open>str\<close>
  (\<^verbatim>\<open>main\<close> always passes a \<^verbatim>\<open>str\<close>).
\<close>

datatype pyval = PyBool bool | PyStr string

definition str2bool :: "pyval \<Rightarrow> error + bool" where
  "str2bool v =
     (case v of
        PyBool b \<Rightarrow> Inr b
      | PyStr s \<Rightarrow>
          if lower s \<in> set [''yes'', ''true'', ''t'', ''y'', ''1''] then Inr True
          else if lower s \<in> set [''no'', ''false'', ''f'', ''n'', ''0''] then Inr False
          else Inl (ArgumentTypeError ''Boolean value expected.''))"

section \<open>Response-name resolution\<close>

text \<open>
  Lines 141 to 156 of \<^verbatim>\<open>main\<close>: the selector is lowercased, then tested against the
  sentinel and the keywords, first match first.
\<close>

definition all_responses :: "string list" where
  "all_responses =
     [''Yr04_print_knowledge'', ''Yr04_literacy_resources'',
      ''Yr04_oral_language'', ''Yr04_print_motivation'']"

definition resolve_response :: "string \<Rightarrow> error + string list" where
  "resolve_response arg =
     (let response = lower arg
      in if response = ''all'' then Inr all_responses
         else if str_in ''oral'' response then Inr [''Yr04_oral_language'']
         else if str_in ''literacy'' response then Inr [''Yr04_literacy_resources'']
         else if str_in ''print'' response \<and> str_in ''knowledge'' response
           then Inr [''Yr04_print_knowledge'']
         else if str_in ''print'' response \<and> str_in ''motivation'' response
           then Inr [''Yr04_print_motivation'']
         else Inl (ValueError (''Response '' @ response @ '' unrecognized'')))"

text \<open>
  The vocabulary of the claims about resolution. Two strings are case variants of each
  other when they have the same length and, position by position, the characters are
  equal or one is the lowercase form of the other.
\<close>

definition case_variant :: "string \<Rightarrow> string \<Rightarrow> bool" where
  "case_variant s t = list_all2 (\<lambda>a b. a = b \<or> b = lower_char a \<or> a = lower_char b) s t"

text \<open>
  A selector matches a category name, in the words of the specification, when the
  lowercased selector occurs in the lowercased name.
\<close>

definition matches :: "string \<Rightarrow> string \<Rightarrow> bool" where
  "matches arg cat = str_in (lower arg) (lower cat)"

text \<open>
  The tests that lines 147 to 154 make, as a table in the order of the tests: a selector
  passes the test of a category when every keyword of the category occurs in the
  lowercased selector.
\<close>

definition category_keywords :: "(string \<times> string list) list" where
  "category_keywords =
     [(''Yr04_oral_language'', [''oral'']),
      (''Yr04_literacy_resources'', [''literacy'']),
      (''Yr04_print_knowledge'', [''print'', ''knowledge'']),
      (''Yr04_print_motivation'', [''print'', ''motivation''])]"

definition keyword_match :: "string \<Rightarrow> string \<Rightarrow> bool" where
  "keyword_match arg cat =
     (case map_of category_keywords cat of
        None \<Rightarrow> False
      | Some ks \<Rightarrow> list_all (\<lambda>k. str_in k (lower arg)) ks)"

section \<open>Data frames and files\<close>

text \<open>
  A floating-point cell is a real number or NaN; \<^verbatim>\<open>v != 0\<close> holds for NaN and \<^verbatim>\<open>v == 0\<close>
  does not, as in numpy. A pandas \<^verbatim>\<open>Series\<close> is a list of labelled cells in index order. A
  \<^verbatim>\<open>DataFrame\<close> is its column labels and its rows in order; a row holds the cells it was
  given, and a column that a row has no cell for reads as NaN there. The response vector
  \<^verbatim>\<open>y\<close> is the list of its cells in row order.
\<close>

datatype cell = Num real | NaN

type_synonym series = "(string \<times> cell) list"

record frame =
  columns :: "string list"
  rows :: "series list"

type_synonym files = "string \<rightharpoonup> frame"

definition cell_at :: "series \<Rightarrow> string \<Rightarrow> cell" where
  "cell_at s l = (case map_of s l of None \<Rightarrow> NaN | Some v \<Rightarrow> v)"

text \<open>\<^verbatim>\<open>pd.DataFrame()\<close>\<close>

definition empty_frame :: frame where
  "empty_frame = \<lparr>columns = [], rows = []\<rparr>"

text \<open>
  Lines 37, 38 and 47, 48: the columns whose label contains \<^verbatim>\<open>Unnamed\<close> are dropped.
\<close>

definition drop_unnamed :: "frame \<Rightarrow> frame" where
  "drop_unnamed f =
     (let to_drop = filter (\<lambda>c. str_in ''Unnamed'' c) (columns f)
      in \<lparr>columns = filter (\<lambda>c. c \<notin> set to_drop) (columns f),
          rows = map (filter (\<lambda>(l, v). l \<notin> set to_drop)) (rows f)\<rparr>)"

text \<open>\<^verbatim>\<open>coeffs['seed'].unique()\<close>: a missing column is a \<^verbatim>\<open>KeyError\<close>.\<close>

definition seed_values :: "frame \<Rightarrow> error + cell list" where
  "seed_values f =
     (if ''seed'' \<in> set (columns f)
      then Inr (remdups (map (\<lambda>r. cell_at r ''seed'') (rows f)))
      else Inl (KeyError ''seed''))"

text \<open>\<^verbatim>\<open>b in precomputed\<close>, for an integer \<open>b\<close> of \<^verbatim>\<open>range\<close> and the array or list of seeds.\<close>

definition seed_in :: "nat \<Rightarrow> cell list \<Rightarrow> bool" where
  "seed_in b precomputed = (Num (real b) \<in> set precomputed)"

text \<open>
  Lines 35 to 42, and again lines 45 to 52 for the legacy path: the cache file, when it
  exists, is read, stripped of its bookkeeping columns and asked for its seeds; otherwise
  the cache is the empty frame with no seeds. The file system maps a path to the frame
  that \<^verbatim>\<open>pd.read_csv\<close> returns for it.
\<close>

definition load_cache :: "files \<Rightarrow> string \<Rightarrow> error + (frame \<times> cell list)" where
  "load_cache fs path =
     (case fs path of
        None \<Rightarrow> Inr (empty_frame, [])
      | Some f \<Rightarrow>
          (let coeffs = drop_unnamed f
           in case seed_values coeffs of
                Inl e \<Rightarrow> Inl e
              | Inr precomputed \<Rightarrow> Inr (coeffs, precomputed)))"

text \<open>\<^verbatim>\<open>.iloc[sample_inds]\<close>: positional selection, out of range is an \<^verbatim>\<open>IndexError\<close>.\<close>

definition iloc :: "'a list \<Rightarrow> nat list \<Rightarrow> error + 'a list" where
  "iloc xs inds =
     (if list_all (\<lambda>i. i < length xs) inds then Inr (map (\<lambda>i. xs ! i) inds)
      else Inl IndexError)"

definition frame_iloc :: "frame \<Rightarrow> nat list \<Rightarrow> error + frame" where
  "frame_iloc f inds =
     (case iloc (rows f) inds of
        Inl e \<Rightarrow> Inl e
      | Inr rs \<Rightarrow> Inr \<lparr>columns = columns f, rows = rs\<rparr>)"

text \<open>
  Line 68, \<^verbatim>\<open>old_coeffs.loc[old_coeffs['seed'] == b].iloc[0]\<close>: the first row of that seed,
  as a series over the frame's columns.
\<close>

definition legacy_row :: "frame \<Rightarrow> nat \<Rightarrow> error + series" where
  "legacy_row f b =
     (case filter (\<lambda>r. cell_at r ''seed'' = Num (real b)) (rows f) of
        [] \<Rightarrow> Inl IndexError
      | r # _ \<Rightarrow> Inr (map (\<lambda>c. (c, cell_at r c)) (columns f)))"

text \<open>Lines 87 and 88: the labels of the non-zero and of the zero coefficients.\<close>

definition selected_of :: "series \<Rightarrow> string list" where
  "selected_of result_params = map fst (filter (\<lambda>(c, v). v \<noteq> Num 0) result_params)"

definition nonselected_of :: "series \<Rightarrow> string list" where
  "nonselected_of result_params = map fst (filter (\<lambda>(c, v). v = Num 0) result_params)"

text \<open>\<^verbatim>\<open>result_params[nonselected]\<close>: selection of a series by labels.\<close>

definition series_select :: "series \<Rightarrow> string list \<Rightarrow> series" where
  "series_select s ls = map (\<lambda>l. (l, cell_at s l)) ls"

text \<open>\<^verbatim>\<open>re_X[selected]\<close>: selection of columns by labels, a missing label is a \<^verbatim>\<open>KeyError\<close>.\<close>

definition select_columns :: "frame \<Rightarrow> string list \<Rightarrow> error + frame" where
  "select_columns f ls =
     (case filter (\<lambda>l. l \<notin> set (columns f)) ls of
        [] \<Rightarrow> Inr \<lparr>columns = ls, rows = map (\<lambda>r. series_select r ls) (rows f)\<rparr>
      | l # _ \<Rightarrow> Inl (KeyError l))"

text \<open>\<^verbatim>\<open>new_coeffs['seed'] = int(b)\<close>: an existing label is overwritten, a new one is added last.\<close>

definition series_set :: "series \<Rightarrow> string \<Rightarrow> cell \<Rightarrow> series" where
  "series_set s k v =
     (if k \<in> set (map fst s) then map (\<lambda>(l, x). if l = k then (l, v) else (l, x)) s
      else s @ [(k, v)])"

text \<open>
  \<^verbatim>\<open>coeffs.append(new_coeffs, ignore_index = True)\<close>: the series becomes the last row, and its
  labels that are no column yet become columns.
\<close>

definition frame_append :: "frame \<Rightarrow> series \<Rightarrow> frame" where
  "frame_append f s =
     \<lparr>columns = columns f @ filter (\<lambda>l. l \<notin> set (columns f)) (map fst s),
      rows = rows f @ [s]\<rparr>"

text \<open>
  \<^verbatim>\<open>to_csv(path)\<close> writes the row index as a first column without a header, which
  \<^verbatim>\<open>pd.read_csv\<close> reads back under the label \<^verbatim>\<open>Unnamed: 0\<close>. Directories and write failures
  are not modelled.
\<close>

definition to_csv :: "files \<Rightarrow> string \<Rightarrow> frame \<Rightarrow> files" where
  "to_csv fs path f =
     fs(path \<mapsto>
       \<lparr>columns = ''Unnamed: 0'' # columns f,
        rows = map (\<lambda>(i, r). (''Unnamed: 0'', Num (real i)) # r) (enumerate 0 (rows f))\<rparr>)"

section \<open>External collaborators and observable events\<close>

text \<open>
  The collaborators that \<^verbatim>\<open>main.py\<close> imports are parameters of the model. Each is a function
  of its arguments that returns a value or raises (the design in the specification makes
  Grid Search a pure function of its inputs):
  \<^item> \<open>pull_classroom_data response\<close> is the design matrix and the response vector;
  \<^item> \<open>randint seed low high size\<close> is what \<^verbatim>\<open>np.random.randint(low, high = high, size = size)\<close>
    returns right after \<^verbatim>\<open>np.random.seed(seed)\<close>;
  \<^item> \<open>full_grid_search X y grid_size\<close> is the pair \<open>(l1, l2)\<close>, with \<open>None\<close> for the default
    grid size;
  \<^item> \<open>OLS endog exog\<close> is the constructor \<^verbatim>\<open>linear_model.OLS(endog, exog)\<close>, which may raise;
  \<^item> \<open>fit_regularized endog exog alpha L1_wt\<close> and \<open>fit endog exog\<close> are the \<^verbatim>\<open>params\<close> of
    the two fits of such a model;
  \<^item> \<open>PostSelectiveLasso_fit X y l1 l2\<close> is the table of \<^verbatim>\<open>PostSelectiveLasso(...).fit()\<close>.
\<close>

record ext =
  pull_classroom_data :: "string \<Rightarrow> error + (frame \<times> cell list)"
  randint :: "nat \<Rightarrow> nat \<Rightarrow> nat \<Rightarrow> nat \<Rightarrow> error + nat list"
  full_grid_search :: "frame \<Rightarrow> cell list \<Rightarrow> nat option \<Rightarrow> error + (real \<times> real)"
  OLS :: "cell list \<Rightarrow> frame \<Rightarrow> error + unit"
  fit_regularized :: "cell list \<Rightarrow> frame \<Rightarrow> real list \<Rightarrow> real \<Rightarrow> error + series"
  fit :: "cell list \<Rightarrow> frame \<Rightarrow> error + series"
  PostSelectiveLasso_fit :: "frame \<Rightarrow> cell list \<Rightarrow> real \<Rightarrow> real \<Rightarrow> error + frame"

text \<open>The calls and writes of a run, in the order they happen.\<close>

datatype event =
    PullData string
  | Working nat
  | RandomSeed nat
  | Randint nat nat nat
  | GridSearch frame "cell list" "nat option"
  | NewOLS "cell list" frame
  | FitRegularized "real list" real
  | Fit "cell list" frame
  | PostSelective real real
  | ReadCsv string
  | ToCsv string

fun is_grid_search :: "event \<Rightarrow> bool" where
  "is_grid_search (GridSearch X y g) = True"
| "is_grid_search ev = False"

fun is_fit_regularized :: "event \<Rightarrow> bool" where
  "is_fit_regularized (FitRegularized alpha w) = True"
| "is_fit_regularized ev = False"

fun is_refit :: "event \<Rightarrow> bool" where
  "is_refit (Fit endog exog) = True"
| "is_refit ev = False"

fun worked_seeds :: "event list \<Rightarrow> nat list" where
  "worked_seeds [] = []"
| "worked_seeds (Working b # evs) = b # worked_seeds evs"
| "worked_seeds (ev # evs) = worked_seeds evs"

text \<open>An event that is neither a Grid Search nor a regularized fit.\<close>

definition quiet :: "event \<Rightarrow> bool" where
  "quiet ev = (\<not> is_grid_search ev \<and> \<not> is_fit_regularized ev)"

text \<open>
  A computation inside one loop iteration: the events it caused, and its value or the
  exception that ended it.
\<close>

type_synonym 'a run = "event list \<times> (error + 'a)"

definition call :: "event \<Rightarrow> error + 'a \<Rightarrow> 'a run" where
  "call ev r = ([ev], r)"

definition lift :: "error + 'a \<Rightarrow> 'a run" where
  "lift r = ([], r)"

definition and_then :: "'a run \<Rightarrow> ('a \<Rightarrow> 'b run) \<Rightarrow> 'b run" where
  "and_then m k =
     (case m of
        (evs, Inl e) \<Rightarrow> (evs, Inl e)
      | (evs, Inr a) \<Rightarrow> (case k a of (evs', r) \<Rightarrow> (evs @ evs', r)))"

section \<open>The bootstrap loop\<close>

text \<open>
  Lines 62 to 65: the generator is reseeded with \<open>b\<close>, \<open>n\<close> indices are drawn from
  \<open>[0, n)\<close>, and the rows of \<open>X\<close> and \<open>y\<close> at these positions are taken.
\<close>

definition resample :: "ext \<Rightarrow> frame \<Rightarrow> cell list \<Rightarrow> nat \<Rightarrow> nat \<Rightarrow> (frame \<times> cell list) run" where
  "resample ext X y n b =
     and_then (call (RandomSeed b) (Inr ())) (\<lambda>_.
     and_then (call (Randint 0 n n) (randint ext b 0 n n)) (\<lambda>sample_inds.
     and_then (lift (frame_iloc X sample_inds)) (\<lambda>re_X.
     and_then (lift (iloc y sample_inds)) (\<lambda>re_y.
     lift (Inr (re_X, re_y))))))"

text \<open>
  Lines 78 to 80: the penalty of each column. \<open>l1\<close> and \<open>l2\<close> are taken to be Python
  floats, whose division by the integer zero raises.
\<close>

definition penalties :: "real \<Rightarrow> real \<Rightarrow> nat \<Rightarrow> string list \<Rightarrow> error + real list" where
  "penalties l1 l2 n cols =
     (if n = 0 \<and> cols \<noteq> [] then Inl ZeroDivisionError
      else Inr (map (\<lambda>c. if str_in ''interaction'' c then l1 / real n else l2 / real n) cols))"

text \<open>
  Lines 67 to 84: the coefficient vector that decides the selection. For a legacy seed it
  is the legacy row without its \<^verbatim>\<open>seed\<close>; otherwise Grid Search on the full data and the
  regularized fit on the resample.
\<close>

definition regularized_params ::
  "ext \<Rightarrow> frame \<Rightarrow> cell list \<Rightarrow> nat \<Rightarrow> frame \<Rightarrow> cell list \<Rightarrow> frame \<Rightarrow> cell list \<Rightarrow> nat \<Rightarrow> series run" where
  "regularized_params ext X y n re_X re_y old_coeffs old_precomputed b =
     (if seed_in b old_precomputed then
        and_then (lift (legacy_row old_coeffs b)) (\<lambda>result_params.
        lift (Inr (filter (\<lambda>(c, v). c \<noteq> ''seed'') result_params)))
      else
        and_then (call (GridSearch X y (Some 5)) (full_grid_search ext X y (Some 5))) (\<lambda>(l1, l2).
        and_then (call (NewOLS re_y re_X) (OLS ext re_y re_X)) (\<lambda>_.
        and_then (lift (penalties l1 l2 n (columns re_X))) (\<lambda>alpha.
        call (FitRegularized alpha 1) (fit_regularized ext re_y re_X alpha 1)))))"

text \<open>
  Lines 86 to 98: selection, the unregularized fit on the selected columns, and the
  new record with its seed.
\<close>

definition refit_record :: "ext \<Rightarrow> frame \<Rightarrow> cell list \<Rightarrow> series \<Rightarrow> nat \<Rightarrow> series run" where
  "refit_record ext re_X re_y result_params b =
     (let selected = selected_of result_params;
          nonselected = nonselected_of result_params
      in and_then (lift (select_columns re_X selected)) (\<lambda>re_X_selected.
         and_then (call (NewOLS re_y re_X_selected) (OLS ext re_y re_X_selected)) (\<lambda>_.
         and_then (call (Fit re_y re_X_selected) (fit ext re_y re_X_selected)) (\<lambda>selective_coeffs.
         lift (Inr (series_set (series_select result_params nonselected @ selective_coeffs)
                      ''seed'' (Num (real b))))))))"

text \<open>Lines 59 to 98: the body of the loop for a seed that is not in the current cache.\<close>

definition bootstrap_seed ::
  "ext \<Rightarrow> frame \<Rightarrow> cell list \<Rightarrow> nat \<Rightarrow> frame \<Rightarrow> cell list \<Rightarrow> nat \<Rightarrow> series run" where
  "bootstrap_seed ext X y n old_coeffs old_precomputed b =
     and_then (call (Working b) (Inr ())) (\<lambda>_.
     and_then (resample ext X y n b) (\<lambda>(re_X, re_y).
     and_then (regularized_params ext X y n re_X re_y old_coeffs old_precomputed b) (\<lambda>result_params.
     refit_record ext re_X re_y result_params b)))"

text \<open>
  What a run leaves behind: the files, the events, and the exception that ended it, if
  one did.
\<close>

record outcome =
  files_after :: files
  trace :: "event list"
  raised :: "error option"

text \<open>
  Lines 54 to 100: the loop over the seeds, with \<open>body\<close> the computation of lines 59 to 98.
  A seed of the current cache is skipped; otherwise the new record is appended to the
  cache in memory and the whole cache is written. An exception ends the loop.
\<close>

fun bootstrap_loop ::
  "(nat \<Rightarrow> series run) \<Rightarrow> cell list \<Rightarrow> string \<Rightarrow> frame \<Rightarrow> files \<Rightarrow> nat list \<Rightarrow> outcome" where
  "bootstrap_loop body precomputed path coeffs fs [] =
     \<lparr>files_after = fs, trace = [], raised = None\<rparr>"
| "bootstrap_loop body precomputed path coeffs fs (b # bs) =
     (if seed_in b precomputed then bootstrap_loop body precomputed path coeffs fs bs
      else case body b of
             (evs, Inl e) \<Rightarrow> \<lparr>files_after = fs, trace = evs, raised = Some e\<rparr>
           | (evs, Inr new_coeffs) \<Rightarrow>
               (let coeffs' = frame_append coeffs new_coeffs;
                    fs' = to_csv fs path coeffs';
                    r = bootstrap_loop body precomputed path coeffs' fs' bs
                in r\<lparr>trace := evs @ ToCsv path # trace r\<rparr>))"

text \<open>
  \<^verbatim>\<open>cte_boostrap(response)\<close>, lines 24 to 100. The loop bound \<^verbatim>\<open>num_bootstrap_samples\<close> is not
  an argument of the function: Python looks it up among the module's globals when line 54
  runs. The model takes that binding as the parameter \<open>num_bootstrap_samples\<close>, with
  \<open>None\<close> for an unbound name.
\<close>

definition cte_boostrap :: "ext \<Rightarrow> int option \<Rightarrow> string \<Rightarrow> files \<Rightarrow> outcome" where
  "cte_boostrap ext num_bootstrap_samples response fs =
     (case pull_classroom_data ext response of
        Inl e \<Rightarrow> \<lparr>files_after = fs, trace = [PullData response], raised = Some e\<rparr>
      | Inr (X, y) \<Rightarrow>
          (let n = length (rows X);
               old_data_path = ''results/old/'' @ response @ ''_bootstrap_coeffs.csv'';
               bootstrapped_data_path =
                 ''results/bootstrap/'' @ response @ ''_bootstrap_coeffs.csv''
           in case load_cache fs bootstrapped_data_path of
                Inl e \<Rightarrow> \<lparr>files_after = fs, trace = [PullData response], raised = Some e\<rparr>
              | Inr (coeffs, precomputed) \<Rightarrow>
                  (case load_cache fs old_data_path of
                     Inl e \<Rightarrow>
                       \<lparr>files_after = fs, trace = [PullData response], raised = Some e\<rparr>
                   | Inr (old_coeffs, old_precomputed) \<Rightarrow>
                       (case num_bootstrap_samples of
                          None \<Rightarrow>
                            \<lparr>files_after = fs, trace = [PullData response],
                             raised = Some (NameError ''num_bootstrap_samples'')\<rparr>
                        | Some N \<Rightarrow>
                            (let r = bootstrap_loop
                                       (bootstrap_seed ext X y n old_coeffs old_precomputed)
                                       precomputed bootstrapped_data_path coeffs fs
                                       [0..<nat N]
                             in r\<lparr>trace := PullData response # trace r\<rparr>)))))"

section \<open>The orchestrator\<close>

text \<open>
  The namespace of the module \<^verbatim>\<open>main.py\<close>. Its \<^verbatim>\<open>def\<close> statements bind three functions, and
  no statement at module level binds an integer: \<^verbatim>\<open>num_bootstrap_samples = 50\<close> on line 162
  is inside \<^verbatim>\<open>main\<close> and binds a local variable of \<^verbatim>\<open>main\<close>.
\<close>

datatype pyfun = Fun_str2bool | Fun_cte_boostrap | Fun_main

definition module_functions :: "(string \<times> pyfun) list" where
  "module_functions =
     [(''str2bool'', Fun_str2bool), (''cte_boostrap'', Fun_cte_boostrap), (''main'', Fun_main)]"

definition module_variables :: "(string \<times> int) list" where
  "module_variables = []"

text \<open>The parsed command line: the three options, each a string.\<close>

record args =
  arg_refit :: string
  arg_bootstrap :: string
  arg_response :: string

definition finish :: "files \<Rightarrow> 'a run \<Rightarrow> outcome" where
  "finish fs m =
     (case m of
        (evs, Inl e) \<Rightarrow> \<lparr>files_after = fs, trace = evs, raised = Some e\<rparr>
      | (evs, Inr a) \<Rightarrow> \<lparr>files_after = fs, trace = evs, raised = None\<rparr>)"

definition then_run :: "(files \<Rightarrow> outcome) \<Rightarrow> (files \<Rightarrow> outcome) \<Rightarrow> files \<Rightarrow> outcome" where
  "then_run p q fs =
     (let r = p fs
      in case raised r of
           Some e \<Rightarrow> r
         | None \<Rightarrow> (let r' = q (files_after r) in r'\<lparr>trace := trace r @ trace r'\<rparr>))"

text \<open>
  Lines 167 to 180: without \<^verbatim>\<open>refit\<close> the stored table is read and printed; with it, the
  full data is fitted and the table, without its truncation columns, is written. The
  index that \<^verbatim>\<open>to_csv\<close> writes is modelled as the row number.
\<close>

definition report_or_refit :: "ext \<Rightarrow> bool \<Rightarrow> string \<Rightarrow> files \<Rightarrow> outcome" where
  "report_or_refit ext refit_flag response fs =
     (let path = ''results/'' @ response @ ''.csv''
      in if \<not> refit_flag then
           finish fs (call (ReadCsv path)
             (case fs path of None \<Rightarrow> Inl (FileNotFoundError path) | Some f \<Rightarrow> Inr f))
         else
           (case
              and_then (call (PullData response) (pull_classroom_data ext response)) (\<lambda>(X, y).
              and_then (call (GridSearch X y None) (full_grid_search ext X y None)) (\<lambda>(l1, l2).
              and_then (call (PostSelective l1 l2) (PostSelectiveLasso_fit ext X y l1 l2))
                (\<lambda>selective_lasso_output.
              lift (select_columns selective_lasso_output
                (filter (\<lambda>c. \<not> str_in ''trunc'' c) (columns selective_lasso_output))))))
            of
              (evs, Inl e) \<Rightarrow> \<lparr>files_after = fs, trace = evs, raised = Some e\<rparr>
            | (evs, Inr table) \<Rightarrow>
                \<lparr>files_after = to_csv fs path table, trace = evs @ [ToCsv path],
                 raised = None\<rparr>))"

text \<open>
  Lines 182 to 184: the call \<^verbatim>\<open>cte_bootstrap(response = response)\<close>. The name is looked up
  among the module's functions; an unbound name is a \<^verbatim>\<open>NameError\<close>. The two other
  functions of the module do not take the keyword \<^verbatim>\<open>response\<close>.
\<close>

definition call_cte_bootstrap :: "ext \<Rightarrow> string \<Rightarrow> files \<Rightarrow> outcome" where
  "call_cte_bootstrap ext response fs =
     (case map_of module_functions ''cte_bootstrap'' of
        None \<Rightarrow>
          \<lparr>files_after = fs, trace = [], raised = Some (NameError ''cte_bootstrap'')\<rparr>
      | Some Fun_cte_boostrap \<Rightarrow>
          cte_boostrap ext (map_of module_variables ''num_bootstrap_samples'') response fs
      | Some _ \<Rightarrow> \<lparr>files_after = fs, trace = [], raised = Some TypeError\<rparr>)"

text \<open>Lines 165 to 184: the loop over the resolved responses.\<close>

fun main_loop :: "ext \<Rightarrow> bool \<Rightarrow> bool \<Rightarrow> string list \<Rightarrow> files \<Rightarrow> outcome" where
  "main_loop ext refit_flag bootstrap_flag [] fs =
     \<lparr>files_after = fs, trace = [], raised = None\<rparr>"
| "main_loop ext refit_flag bootstrap_flag (response # responses) fs =
     then_run
       (then_run (report_or_refit ext refit_flag response)
          (if bootstrap_flag then call_cte_bootstrap ext response
           else (\<lambda>fs. \<lparr>files_after = fs, trace = [], raised = None\<rparr>)))
       (main_loop ext refit_flag bootstrap_flag responses) fs"

text \<open>
  \<^verbatim>\<open>main\<close>, lines 103 to 184, after \<^verbatim>\<open>parser.parse_args()\<close> has returned the three options.
\<close>

definition main :: "ext \<Rightarrow> args \<Rightarrow> files \<Rightarrow> outcome" where
  "main ext a fs =
     (case str2bool (PyStr (arg_refit a)) of
        Inl e \<Rightarrow> \<lparr>files_after = fs, trace = [], raised = Some e\<rparr>
      | Inr refit_flag \<Rightarrow>
          (case str2bool (PyStr (arg_bootstrap a)) of
             Inl e \<Rightarrow> \<lparr>files_after = fs, trace = [], raised = Some e\<rparr>
           | Inr bootstrap_flag \<Rightarrow>
               (case resolve_response (arg_response a) of
                  Inl e \<Rightarrow> \<lparr>files_after = fs, trace = [], raised = Some e\<rparr>
                | Inr responses \<Rightarrow>
                    (let r = main_loop ext refit_flag bootstrap_flag responses fs
                     in r\<lparr>trace := RandomSeed 186 # trace r\<rparr>))))"

section \<open>An example environment\<close>

text \<open>
  A design matrix with two main effects and one interaction, two observations, and
  collaborators that keep their contracts: the regularized fit zeroes the interaction
  column, and every fit labels its coefficients with the columns it was given.
\<close>

definition example_X :: frame where
  "example_X =
     \<lparr>columns = [''a'', ''b'', ''a_b_interaction''],
      rows = [[(''a'', Num 1), (''b'', Num 2), (''a_b_interaction'', Num 2)],
              [(''a'', Num 3), (''b'', Num 4), (''a_b_interaction'', Num 12)]]\<rparr>"

definition example_y :: "cell list" where
  "example_y = [Num 10, Num 20]"

definition example_ext :: ext where
  "example_ext =
     \<lparr>pull_classroom_data = (\<lambda>response. Inr (example_X, example_y)),
      randint = (\<lambda>seed low high size. Inr (map (\<lambda>i. (seed + i) mod high) [0..<size])),
      full_grid_search = (\<lambda>X y grid_size. Inr (1, 2)),
      OLS = (\<lambda>endog exog. Inr ()),
      fit_regularized = (\<lambda>endog exog alpha L1_wt.
        Inr (map (\<lambda>c. (c, if str_in ''interaction'' c then Num 0 else Num 1)) (columns exog))),
      fit = (\<lambda>endog exog. Inr (map (\<lambda>c. (c, Num 7)) (columns exog))),
      PostSelectiveLasso_fit = (\<lambda>X y l1 l2.
        Inr \<lparr>columns = [''coef'', ''trunc_lower''],
             rows = [[(''coef'', Num 1), (''trunc_lower'', Num 0)]]\<rparr>)\<rparr>"

text \<open>The same, with a regularized fit that zeroes every coefficient.\<close>

definition example_ext_zero :: ext where
  "example_ext_zero =
     example_ext\<lparr>fit_regularized :=
       (\<lambda>endog exog alpha L1_wt. Inr (map (\<lambda>c. (c, Num 0)) (columns exog)))\<rparr>"

text \<open>And with an unregularized fit that, in addition, rejects a design without columns.\<close>

definition example_ext_zero_raising :: ext where
  "example_ext_zero_raising =
     example_ext_zero\<lparr>fit :=
       (\<lambda>endog exog. if columns exog = [] then Inl (ExternalError ''zero-size array'')
                      else Inr (map (\<lambda>c. (c, Num 7)) (columns exog)))\<rparr>"

text \<open>A legacy cache that holds seed 0, and a results table for one response.\<close>

definition example_legacy :: frame where
  "example_legacy =
     \<lparr>columns = [''Unnamed: 0'', ''a'', ''b'', ''a_b_interaction'', ''seed''],
      rows = [[(''Unnamed: 0'', Num 0), (''a'', Num 2), (''b'', Num 0),
               (''a_b_interaction'', Num 0), (''seed'', Num 0)]]\<rparr>"

definition example_legacy_files :: files where
  "example_legacy_files = [''results/old/r_bootstrap_coeffs.csv'' \<mapsto> example_legacy]"

definition example_results_files :: files where
  "example_results_files =
     [''results/Yr04_oral_language.csv'' \<mapsto> \<lparr>columns = [''coef''], rows = []\<rparr>]"

text \<open>A current cache that already holds the seeds 0 and 1.\<close>

definition example_cache :: frame where
  "example_cache =
     \<lparr>columns = [''Unnamed: 0'', ''a_b_interaction'', ''a'', ''b'', ''seed''],
      rows = [[(''Unnamed: 0'', Num 0), (''a_b_interaction'', Num 0), (''a'', Num 7),
               (''b'', Num 7), (''seed'', Num 0)],
              [(''Unnamed: 0'', Num 1), (''a_b_interaction'', Num 0), (''a'', Num 7),
               (''b'', Num 7), (''seed'', Num 1)]]\<rparr>"

definition example_cache_files :: files where
  "example_cache_files = [''results/bootstrap/r_bootstrap_coeffs.csv'' \<mapsto> example_cache]"

text \<open>A current cache that holds seed 0 only.\<close>

definition example_partial_cache :: frame where
  "example_partial_cache =
     \<lparr>columns = [''Unnamed: 0'', ''a_b_interaction'', ''a'', ''b'', ''seed''],
      rows = [[(''Unnamed: 0'', Num 0), (''a_b_interaction'', Num 0), (''a'', Num 5),
               (''b'', Num 6), (''seed'', Num 0)]]\<rparr>"

definition example_partial_files :: files where
  "example_partial_files =
     [''results/bootstrap/r_bootstrap_coeffs.csv'' \<mapsto> example_partial_cache]"

text \<open>A legacy cache of an older schema: it has the column \<open>a\<close> only.\<close>

definition example_stale_legacy :: frame where
  "example_stale_legacy =
     \<lparr>columns = [''Unnamed: 0'', ''a'', ''seed''],
      rows = [[(''Unnamed: 0'', Num 0), (''a'', Num 2), (''seed'', Num 0)]]\<rparr>"

definition example_stale_files :: files where
  "example_stale_files = [''results/old/r_bootstrap_coeffs.csv'' \<mapsto> example_stale_legacy]"

section \<open>Contracts of the collaborators\<close>

text \<open>
  The \<^verbatim>\<open>params\<close> of a statsmodels fit are indexed by the columns of the design the model was
  built from.
\<close>

definition labels_by_columns :: "ext \<Rightarrow> bool" where
  "labels_by_columns ext =
     ((\<forall>endog exog alpha L1_wt p.
         fit_regularized ext endog exog alpha L1_wt = Inr p \<longrightarrow> map fst p = columns exog) \<and>
      (\<forall>endog exog p. fit ext endog exog = Inr p \<longrightarrow> map fst p = columns exog))"

section \<open>Facts about strings\<close>

lemma begins_iff: "begins p s \<longleftrightarrow> (\<exists>v. s = p @ v)"
  by (induction p s rule: begins.induct) auto

lemma str_in_iff: "str_in sub s \<longleftrightarrow> (\<exists>u v. s = u @ sub @ v)"
proof (induction s)
  case Nil
  then show ?case by auto
next
  case (Cons c cs)
  show ?case
  proof
    assume "str_in sub (c # cs)"
    then consider "begins sub (c # cs)" | "str_in sub cs" by auto
    then show "\<exists>u v. c # cs = u @ sub @ v"
    proof cases
      case 1
      then obtain v where "c # cs = sub @ v" by (auto simp: begins_iff)
      then have "c # cs = [] @ sub @ v" by simp
      then show ?thesis by blast
    next
      case 2
      then obtain u v where "cs = u @ sub @ v" using Cons.IH by auto
      then have "c # cs = (c # u) @ sub @ v" by simp
      then show ?thesis by blast
    qed
  next
    assume "\<exists>u v. c # cs = u @ sub @ v"
    then obtain u v where uv: "c # cs = u @ sub @ v" by blast
    show "str_in sub (c # cs)"
    proof (cases u)
      case Nil
      with uv have "begins sub (c # cs)" by (auto simp: begins_iff)
      then show ?thesis by simp
    next
      case (Cons a u')
      with uv have "cs = u' @ sub @ v" by simp
      then have "str_in sub cs" using Cons.IH by blast
      then show ?thesis by simp
    qed
  qed
qed

lemma lower_char_idem: "lower_char (lower_char c) = lower_char c"
proof -
  have "of_char c < (256::nat)" by simp
  then show ?thesis
    by (auto simp: lower_char_def Let_def)
qed

lemma lower_idem: "lower (lower s) = lower s"
  by (simp add: lower_def lower_char_idem)

lemma case_variant_lower_eq: "case_variant s t \<Longrightarrow> lower s = lower t"
  unfolding case_variant_def lower_def
  by (induction s t rule: list_all2_induct) (auto simp: lower_char_idem)

lemma case_variant_lower: "case_variant s (lower s)"
  unfolding case_variant_def lower_def
  by (induction s) auto

lemma lower_truthy:
  "lower ''yes'' = ''yes''" "lower ''true'' = ''true''" "lower ''t'' = ''t''"
  "lower ''y'' = ''y''" "lower ''1'' = ''1''"
  by (simp_all add: lower_def lower_char_def)

lemma lower_falsy:
  "lower ''no'' = ''no''" "lower ''false'' = ''false''" "lower ''f'' = ''f''"
  "lower ''n'' = ''n''" "lower ''0'' = ''0''"
  by (simp_all add: lower_def lower_char_def)

section \<open>Facts about one loop iteration\<close>

lemma and_then_Inr:
  "and_then m k = (evs, Inr v) \<longleftrightarrow>
     (\<exists>e1 a e2. m = (e1, Inr a) \<and> k a = (e2, Inr v) \<and> evs = e1 @ e2)"
  by (auto simp: and_then_def split: prod.splits sum.splits)

lemma fst_and_then:
  "fst (and_then m k) = fst m @ (case snd m of Inl e \<Rightarrow> [] | Inr a \<Rightarrow> fst (k a))"
  by (auto simp: and_then_def split: prod.splits sum.splits)

lemma snd_and_then:
  "snd (and_then m k) = (case snd m of Inl e \<Rightarrow> Inl e | Inr a \<Rightarrow> snd (k a))"
  by (auto simp: and_then_def split: prod.splits sum.splits)

lemma resample_Inr:
  assumes "resample ext X y n b = (evs, Inr (re_X, re_y))"
  shows "evs = [RandomSeed b, Randint 0 n n] \<and>
         (\<exists>inds. randint ext b 0 n n = Inr inds \<and> frame_iloc X inds = Inr re_X \<and>
                 iloc y inds = Inr re_y)"
  using assms
  by (auto simp: resample_def and_then_Inr call_def lift_def)

lemma regularized_params_Inr:
  assumes "regularized_params ext X y n re_X re_y old_coeffs old_precomputed b = (evs, Inr p)"
  shows "(seed_in b old_precomputed \<and> evs = [] \<and>
            (\<exists>row. legacy_row old_coeffs b = Inr row \<and> p = filter (\<lambda>(c, v). c \<noteq> ''seed'') row)) \<or>
         (\<not> seed_in b old_precomputed \<and>
            (\<exists>l1 l2 alpha. full_grid_search ext X y (Some 5) = Inr (l1, l2) \<and>
               OLS ext re_y re_X = Inr () \<and> penalties l1 l2 n (columns re_X) = Inr alpha \<and>
               fit_regularized ext re_y re_X alpha 1 = Inr p \<and>
               evs = [GridSearch X y (Some 5), NewOLS re_y re_X, FitRegularized alpha 1]))"
  using assms
  by (auto simp: regularized_params_def and_then_Inr call_def lift_def split: if_splits)

lemma refit_record_Inr:
  assumes "refit_record ext re_X re_y p b = (evs, Inr new_coeffs)"
  shows "\<exists>sel_X coef. select_columns re_X (selected_of p) = Inr sel_X \<and>
           OLS ext re_y sel_X = Inr () \<and> fit ext re_y sel_X = Inr coef \<and>
           evs = [NewOLS re_y sel_X, Fit re_y sel_X] \<and>
           new_coeffs = series_set (series_select p (nonselected_of p) @ coef) ''seed'' (Num (real b))"
  using assms
  by (auto simp: refit_record_def Let_def and_then_Inr call_def lift_def)

lemma bootstrap_seed_Inr:
  assumes "bootstrap_seed ext X y n old_coeffs old_precomputed b = (evs, Inr new_coeffs)"
  shows "\<exists>re_X re_y e1 p e2 e3.
           resample ext X y n b = (e1, Inr (re_X, re_y)) \<and>
           regularized_params ext X y n re_X re_y old_coeffs old_precomputed b = (e2, Inr p) \<and>
           refit_record ext re_X re_y p b = (e3, Inr new_coeffs) \<and>
           evs = Working b # e1 @ e2 @ e3"
  using assms
  by (auto simp: bootstrap_seed_def and_then_Inr call_def)

lemma grid_events_seed:
  assumes "bootstrap_seed ext X y n old_coeffs old_precomputed b = (evs, Inr new_coeffs)"
  shows "filter is_grid_search evs =
           (if seed_in b old_precomputed then [] else [GridSearch X y (Some 5)])"
proof -
  from bootstrap_seed_Inr [OF assms] obtain re_X re_y e1 p e2 e3 where
    r: "resample ext X y n b = (e1, Inr (re_X, re_y))" and
    p: "regularized_params ext X y n re_X re_y old_coeffs old_precomputed b = (e2, Inr p)" and
    f: "refit_record ext re_X re_y p b = (e3, Inr new_coeffs)" and
    evs: "evs = Working b # e1 @ e2 @ e3"
    by blast
  from resample_Inr [OF r] have e1: "filter is_grid_search e1 = []" by auto
  from refit_record_Inr [OF f] have e3: "filter is_grid_search e3 = []" by auto
  from regularized_params_Inr [OF p]
  have e2: "filter is_grid_search e2 =
      (if seed_in b old_precomputed then [] else [GridSearch X y (Some 5)])"
    by auto
  show ?thesis by (simp add: evs e1 e2 e3)
qed

lemma grid_events_loop:
  assumes "raised (bootstrap_loop (bootstrap_seed ext X y n old_coeffs old_precomputed)
             precomputed path coeffs fs bs) = None"
  shows "filter is_grid_search
           (trace (bootstrap_loop (bootstrap_seed ext X y n old_coeffs old_precomputed)
              precomputed path coeffs fs bs)) =
         map (\<lambda>b. GridSearch X y (Some 5))
           (filter (\<lambda>b. \<not> seed_in b precomputed \<and> \<not> seed_in b old_precomputed) bs)"
  using assms
proof (induction bs arbitrary: coeffs fs)
  case Nil
  then show ?case by simp
next
  case (Cons b bs)
  show ?case
  proof (cases "seed_in b precomputed")
    case True
    with Cons show ?thesis by simp
  next
    case False
    obtain evs res where body: "bootstrap_seed ext X y n old_coeffs old_precomputed b = (evs, res)"
      by (cases "bootstrap_seed ext X y n old_coeffs old_precomputed b")
    show ?thesis
    proof (cases res)
      case (Inl e)
      with Cons.prems False body show ?thesis by simp
    next
      case (Inr new_coeffs)
      with Cons.prems False body
      have "raised (bootstrap_loop (bootstrap_seed ext X y n old_coeffs old_precomputed)
             precomputed path (frame_append coeffs new_coeffs)
             (to_csv fs path (frame_append coeffs new_coeffs)) bs) = None"
        by (simp add: Let_def)
      from Cons.IH [OF this] grid_events_seed [OF body [unfolded Inr]] False body Inr
      show ?thesis by (simp add: Let_def)
    qed
  qed
qed

section \<open>Facts about the loop\<close>

lemma worked_seeds_append: "worked_seeds (xs @ ys) = worked_seeds xs @ worked_seeds ys"
  by (induction xs rule: worked_seeds.induct) auto

lemma worked_seeds_resample: "worked_seeds (fst (resample ext X y n b)) = []"
  by (auto simp: resample_def fst_and_then snd_and_then call_def lift_def split: sum.splits)

lemma worked_seeds_regularized_params:
  "worked_seeds (fst (regularized_params ext X y n re_X re_y old_coeffs old_precomputed b)) = []"
  by (auto simp: regularized_params_def fst_and_then snd_and_then call_def lift_def
      split: sum.splits prod.splits)

lemma worked_seeds_refit_record: "worked_seeds (fst (refit_record ext re_X re_y p b)) = []"
  by (auto simp: refit_record_def Let_def fst_and_then snd_and_then call_def lift_def
      split: sum.splits)

lemma worked_seeds_bootstrap_seed:
  "worked_seeds (fst (bootstrap_seed ext X y n old_coeffs old_precomputed b)) = [b]"
  by (auto simp: bootstrap_seed_def fst_and_then snd_and_then call_def worked_seeds_append
      worked_seeds_resample worked_seeds_regularized_params worked_seeds_refit_record
      split: sum.splits prod.splits)

lemma worked_seeds_loop:
  assumes "\<And>b. worked_seeds (fst (body b)) = [b]"
  shows "\<exists>k. worked_seeds (trace (bootstrap_loop body precomputed path coeffs fs bs)) =
           take k (filter (\<lambda>b. \<not> seed_in b precomputed) bs)"
proof (induction bs arbitrary: coeffs fs)
  case Nil
  then show ?case by simp
next
  case (Cons b bs)
  show ?case
  proof (cases "seed_in b precomputed")
    case True
    with Cons.IH [of coeffs fs] show ?thesis by simp
  next
    case False
    obtain evs res where body: "body b = (evs, res)" by (cases "body b")
    with assms [of b] have evs: "worked_seeds evs = [b]" by simp
    show ?thesis
    proof (cases res)
      case (Inl e)
      with False body evs
      have "worked_seeds (trace (bootstrap_loop body precomputed path coeffs fs (b # bs))) =
          take 1 (filter (\<lambda>b. \<not> seed_in b precomputed) (b # bs))"
        by simp
      then show ?thesis by blast
    next
      case (Inr new_coeffs)
      from Cons.IH [of "frame_append coeffs new_coeffs"
          "to_csv fs path (frame_append coeffs new_coeffs)"]
      obtain k where k: "worked_seeds (trace (bootstrap_loop body precomputed path
          (frame_append coeffs new_coeffs) (to_csv fs path (frame_append coeffs new_coeffs)) bs)) =
          take k (filter (\<lambda>b. \<not> seed_in b precomputed) bs)"
        by blast
      with False body evs Inr
      have "worked_seeds (trace (bootstrap_loop body precomputed path coeffs fs (b # bs))) =
          take (Suc k) (filter (\<lambda>b. \<not> seed_in b precomputed) (b # bs))"
        by (simp add: Let_def worked_seeds_append)
      then show ?thesis by blast
    qed
  qed
qed

lemma loop_all_cached:
  assumes "\<forall>b \<in> set bs. seed_in b precomputed"
  shows "bootstrap_loop body precomputed path coeffs fs bs =
           \<lparr>files_after = fs, trace = [], raised = None\<rparr>"
  using assms by (induction bs) auto

lemma to_csv_twice: "to_csv (to_csv fs path f) path g = to_csv fs path g"
  by (simp add: to_csv_def)

lemma rows_foldl_append: "rows (foldl frame_append coeffs new) = rows coeffs @ new"
  by (induction new arbitrary: coeffs) (auto simp: frame_append_def)

lemma loop_files:
  "\<exists>new. set new \<subseteq> {s. \<exists>b \<in> set bs. \<not> seed_in b precomputed \<and> snd (body b) = Inr s} \<and>
     (new = [] \<and> files_after (bootstrap_loop body precomputed path coeffs fs bs) = fs \<or>
      new \<noteq> [] \<and> files_after (bootstrap_loop body precomputed path coeffs fs bs) =
        to_csv fs path (foldl frame_append coeffs new))"
proof (induction bs arbitrary: coeffs fs)
  case Nil
  have "set [] \<subseteq> {s. \<exists>b \<in> set []. \<not> seed_in b precomputed \<and> snd (body b) = Inr s}" by simp
  then show ?case by (intro exI [of _ "[]"]) simp
next
  case (Cons b bs)
  let ?S = "\<lambda>bs. {s. \<exists>b \<in> set bs. \<not> seed_in b precomputed \<and> snd (body b) = Inr s}"
  have mono: "?S bs \<subseteq> ?S (b # bs)" by auto
  show ?case
  proof (cases "seed_in b precomputed")
    case True
    from Cons.IH [of coeffs fs] obtain new where
      h: "set new \<subseteq> ?S bs \<and>
      (new = [] \<and> files_after (bootstrap_loop body precomputed path coeffs fs bs) = fs \<or>
       new \<noteq> [] \<and> files_after (bootstrap_loop body precomputed path coeffs fs bs) =
         to_csv fs path (foldl frame_append coeffs new))"
      ..
    from h mono have "set new \<subseteq> ?S (b # bs)" by blast
    with h True show ?thesis by (intro exI [of _ new]) simp
  next
    case False
    obtain evs res where body: "body b = (evs, res)" by (cases "body b")
    show ?thesis
    proof (cases res)
      case (Inl e)
      with False body show ?thesis by (intro exI [of _ "[]"]) simp
    next
      case (Inr s)
      let ?c = "frame_append coeffs s"
      let ?r = "bootstrap_loop body precomputed path ?c (to_csv fs path ?c) bs"
      from Cons.IH [of ?c "to_csv fs path ?c"] obtain new where
        h: "set new \<subseteq> ?S bs \<and>
          (new = [] \<and> files_after ?r = to_csv fs path ?c \<or>
           new \<noteq> [] \<and> files_after ?r = to_csv (to_csv fs path ?c) path (foldl frame_append ?c new))"
        ..
      from h have sub: "set new \<subseteq> ?S bs" by (rule conjunct1)
      from h have fin: "new = [] \<and> files_after ?r = to_csv fs path ?c \<or>
          new \<noteq> [] \<and> files_after ?r = to_csv (to_csv fs path ?c) path (foldl frame_append ?c new)"
        by (rule conjunct2)
      have loop: "files_after (bootstrap_loop body precomputed path coeffs fs (b # bs)) =
          files_after ?r"
        using False body Inr by (simp add: Let_def)
      have s: "s \<in> ?S (b # bs)" using False body Inr by auto
      from fin have "files_after ?r = to_csv fs path (foldl frame_append coeffs (s # new))"
        by (auto simp: to_csv_twice)
      moreover have "set (s # new) \<subseteq> ?S (b # bs)" using sub s mono by auto
      ultimately show ?thesis unfolding loop by (intro exI [of _ "s # new"]) simp
    qed
  qed
qed

lemma map_of_overwrite:
  "k \<in> fst ` set s \<Longrightarrow>
   map_of (map (\<lambda>(l, x). if l = k then (l, v) else (l, x)) s) k = Some v"
proof (induction s)
  case Nil
  then show ?case by simp
next
  case (Cons a s)
  obtain l x where a: "a = (l, x)" by (cases a)
  show ?case
  proof (cases "l = k")
    case True
    with a show ?thesis by simp
  next
    case False
    with a Cons.prems have "k \<in> fst ` set s" by auto
    with Cons.IH False a show ?thesis by simp
  qed
qed

lemma cell_at_series_set: "cell_at (series_set s k v) k = v"
proof (cases "k \<in> fst ` set s")
  case True
  with map_of_overwrite [OF True] show ?thesis by (simp add: series_set_def cell_at_def)
next
  case False
  then have "map_of s k = None" by (simp add: map_of_eq_None_iff)
  with False show ?thesis by (simp add: series_set_def cell_at_def map_add_def)
qed

lemma bootstrap_seed_seed:
  assumes "snd (bootstrap_seed ext X y n old_coeffs old_precomputed b) = Inr s"
  shows "cell_at s ''seed'' = Num (real b)"
proof -
  obtain evs where "bootstrap_seed ext X y n old_coeffs old_precomputed b = (evs, Inr s)"
    using assms by (cases "bootstrap_seed ext X y n old_coeffs old_precomputed b") simp
  from bootstrap_seed_Inr [OF this] obtain re_X re_y p e3 where
    "refit_record ext re_X re_y p b = (e3, Inr s)" by blast
  from refit_record_Inr [OF this] show ?thesis by (auto simp: cell_at_series_set)
qed

lemma worked_seeds_concat:
  assumes "\<And>b. worked_seeds (fst (body b)) = [b]"
  shows "worked_seeds (concat (map (\<lambda>b. fst (body b) @ [ToCsv path]) bs)) = bs"
  using assms by (induction bs) (simp_all add: worked_seeds_append)

lemma loop_shape:
  fixes body :: "nat \<Rightarrow> series run"
  defines "U \<equiv> \<lambda>precomputed bs. filter (\<lambda>b. \<not> seed_in b precomputed) bs"
  shows "\<exists>k new. k \<le> length (U precomputed bs) \<and>
     map Inr new = map (\<lambda>b. snd (body b)) (take k (U precomputed bs)) \<and>
     files_after (bootstrap_loop body precomputed path coeffs fs bs) =
       (if k = 0 then fs else to_csv fs path (foldl frame_append coeffs new)) \<and>
     (raised (bootstrap_loop body precomputed path coeffs fs bs) = None \<and>
      k = length (U precomputed bs) \<and>
      trace (bootstrap_loop body precomputed path coeffs fs bs) =
        concat (map (\<lambda>b. fst (body b) @ [ToCsv path]) (U precomputed bs))
      \<or>
      k < length (U precomputed bs) \<and>
      (\<exists>e. snd (body (U precomputed bs ! k)) = Inl e \<and>
           raised (bootstrap_loop body precomputed path coeffs fs bs) = Some e) \<and>
      trace (bootstrap_loop body precomputed path coeffs fs bs) =
        concat (map (\<lambda>b. fst (body b) @ [ToCsv path]) (take k (U precomputed bs))) @
        fst (body (U precomputed bs ! k)))"
proof (induction bs arbitrary: coeffs fs)
  case Nil
  show ?case by (intro exI [of _ 0] exI [of _ "[]"]) (simp add: U_def)
next
  case (Cons b bs)
  show ?case
  proof (cases "seed_in b precomputed")
    case True
    then have "U precomputed (b # bs) = U precomputed bs" by (simp add: U_def)
    with True Cons.IH [of coeffs fs] show ?thesis by simp
  next
    case False
    then have U: "U precomputed (b # bs) = b # U precomputed bs" by (simp add: U_def)
    obtain evs res where body: "body b = (evs, res)" by (cases "body b")
    show ?thesis
    proof (cases res)
      case (Inl e)
      with False body show ?thesis
        by (intro exI [of _ 0] exI [of _ "[]"]) (simp add: U)
    next
      case (Inr s)
      let ?c = "frame_append coeffs s"
      let ?fs = "to_csv fs path ?c"
      let ?r = "bootstrap_loop body precomputed path ?c ?fs bs"
      let ?V = "U precomputed bs"
      have tr: "trace (bootstrap_loop body precomputed path coeffs fs (b # bs)) =
          evs @ ToCsv path # trace ?r"
        and ra: "raised (bootstrap_loop body precomputed path coeffs fs (b # bs)) = raised ?r"
        and fa: "files_after (bootstrap_loop body precomputed path coeffs fs (b # bs)) =
          files_after ?r"
        using False body Inr by (simp_all add: Let_def)
      from Cons.IH [of ?c ?fs] obtain k new where
        k: "k \<le> length ?V" and
        new: "map Inr new = map (\<lambda>b. snd (body b)) (take k ?V)" and
        files: "files_after ?r =
          (if k = 0 then ?fs else to_csv ?fs path (foldl frame_append ?c new))" and
        alt: "raised ?r = None \<and> k = length ?V \<and>
            trace ?r = concat (map (\<lambda>b. fst (body b) @ [ToCsv path]) ?V)
          \<or> k < length ?V \<and>
            (\<exists>e. snd (body (?V ! k)) = Inl e \<and> raised ?r = Some e) \<and>
            trace ?r = concat (map (\<lambda>b. fst (body b) @ [ToCsv path]) (take k ?V)) @
              fst (body (?V ! k))"
        by (elim exE conjE) (rule that)
      have k': "Suc k \<le> length (U precomputed (b # bs))" using k by (simp add: U)
      have new': "map Inr (s # new) =
          map (\<lambda>b. snd (body b)) (take (Suc k) (U precomputed (b # bs)))"
        using new body Inr by (simp add: U)
      have files': "files_after (bootstrap_loop body precomputed path coeffs fs (b # bs)) =
          (if Suc k = 0 then fs else to_csv fs path (foldl frame_append coeffs (s # new)))"
      proof (cases "k = 0")
        case True
        with new have "new = []" by simp
        with True files show ?thesis unfolding fa by simp
      next
        case False
        with files show ?thesis unfolding fa by (simp add: to_csv_twice)
      qed
      from alt have alt': "raised (bootstrap_loop body precomputed path coeffs fs (b # bs)) = None \<and>
            Suc k = length (U precomputed (b # bs)) \<and>
            trace (bootstrap_loop body precomputed path coeffs fs (b # bs)) =
              concat (map (\<lambda>b. fst (body b) @ [ToCsv path]) (U precomputed (b # bs)))
          \<or> Suc k < length (U precomputed (b # bs)) \<and>
            (\<exists>e. snd (body (U precomputed (b # bs) ! Suc k)) = Inl e \<and>
               raised (bootstrap_loop body precomputed path coeffs fs (b # bs)) = Some e) \<and>
            trace (bootstrap_loop body precomputed path coeffs fs (b # bs)) =
              concat (map (\<lambda>b. fst (body b) @ [ToCsv path])
                (take (Suc k) (U precomputed (b # bs)))) @
              fst (body (U precomputed (b # bs) ! Suc k))"
      proof (elim disjE conjE exE)
        assume "raised ?r = None" "k = length ?V"
          "trace ?r = concat (map (\<lambda>b. fst (body b) @ [ToCsv path]) ?V)"
        then show ?thesis by (intro disjI1) (simp add: U tr ra body del: bootstrap_loop.simps)
      next
        fix e
        assume "k < length ?V" "snd (body (?V ! k)) = Inl e" "raised ?r = Some e"
          "trace ?r = concat (map (\<lambda>b. fst (body b) @ [ToCsv path]) (take k ?V)) @
             fst (body (?V ! k))"
        then show ?thesis by (intro disjI2) (simp add: U tr ra body del: bootstrap_loop.simps)
      qed
      from k' new' files' alt' show ?thesis
        by (intro exI [of _ "Suc k"] exI [of _ "s # new"] conjI)
    qed
  qed
qed

section \<open>Claims about the command-line surface\<close>

text \<open>
  Claim C9. The boolean-flag parser returns true for every case variant of one of
  yes, true, t, y, 1, returns false for every case variant of one of no, false, f, n, 0,
  and raises \<^verbatim>\<open>ArgumentTypeError('Boolean value expected.')\<close> for every string that is a
  case variant of none of the ten words.
\<close>

theorem str2bool_flags:
  "(\<forall>w \<in> set [''yes'', ''true'', ''t'', ''y'', ''1''].
      case_variant v w \<longrightarrow> str2bool (PyStr v) = Inr True) \<and>
   (\<forall>w \<in> set [''no'', ''false'', ''f'', ''n'', ''0''].
      case_variant v w \<longrightarrow> str2bool (PyStr v) = Inr False) \<and>
   ((\<forall>w \<in> set [''yes'', ''true'', ''t'', ''y'', ''1'', ''no'', ''false'', ''f'', ''n'', ''0''].
      \<not> case_variant v w) \<longrightarrow>
    str2bool (PyStr v) = Inl (ArgumentTypeError ''Boolean value expected.''))"
proof (intro conjI ballI impI)
  fix w assume w: "w \<in> set [''yes'', ''true'', ''t'', ''y'', ''1'']" and cv: "case_variant v w"
  from w have "lower w = w" using lower_truthy by auto
  with cv have "lower v = w" using case_variant_lower_eq by fastforce
  with w show "str2bool (PyStr v) = Inr True"
    by (simp add: str2bool_def)
next
  fix w assume w: "w \<in> set [''no'', ''false'', ''f'', ''n'', ''0'']" and cv: "case_variant v w"
  from w have "lower w = w" using lower_falsy by auto
  with cv have "lower v = w" using case_variant_lower_eq by fastforce
  with w show "str2bool (PyStr v) = Inr False"
    by (auto simp: str2bool_def)
next
  assume none: "\<forall>w \<in> set [''yes'', ''true'', ''t'', ''y'', ''1'', ''no'', ''false'', ''f'', ''n'', ''0''].
      \<not> case_variant v w"
  have "case_variant v (lower v)" by (rule case_variant_lower)
  with none have "lower v \<notin> set [''yes'', ''true'', ''t'', ''y'', ''1'', ''no'', ''false'', ''f'', ''n'', ''0'']"
    by blast
  then show "str2bool (PyStr v) = Inl (ArgumentTypeError ''Boolean value expected.'')"
    by (simp add: str2bool_def)
qed

theorem str2bool_flags_witness:
  "case_variant ''YeS'' ''yes'' \<and> str2bool (PyStr ''YeS'') = Inr True \<and>
   case_variant ''FALSE'' ''false'' \<and> str2bool (PyStr ''FALSE'') = Inr False \<and>
   \<not> (\<exists>w \<in> set [''yes'', ''true'', ''t'', ''y'', ''1'', ''no'', ''false'', ''f'', ''n'', ''0''].
      case_variant ''maybe'' w) \<and>
   str2bool (PyStr ''maybe'') = Inl (ArgumentTypeError ''Boolean value expected.'')"
proof -
  have a: "case_variant ''YeS'' ''yes''"
    by code_simp
  have b: "case_variant ''FALSE'' ''false''"
    by code_simp
  have c: "\<forall>w \<in> set [''yes'', ''true'', ''t'', ''y'', ''1'', ''no'', ''false'', ''f'', ''n'', ''0''].
      \<not> case_variant ''maybe'' w"
    by code_simp
  from a have "str2bool (PyStr ''YeS'') = Inr True"
    using str2bool_flags [of "''YeS''"] by simp
  moreover from b have "str2bool (PyStr ''FALSE'') = Inr False"
    using str2bool_flags [of "''FALSE''"] by simp
  moreover from c have "str2bool (PyStr ''maybe'') = Inl (ArgumentTypeError ''Boolean value expected.'')"
    using str2bool_flags [of "''maybe''"] by blast
  ultimately show ?thesis using a b c by blast
qed

lemma keyword_match_simps:
  "keyword_match arg ''Yr04_print_knowledge'' \<longleftrightarrow>
     str_in ''print'' (lower arg) \<and> str_in ''knowledge'' (lower arg)"
  "keyword_match arg ''Yr04_literacy_resources'' \<longleftrightarrow> str_in ''literacy'' (lower arg)"
  "keyword_match arg ''Yr04_oral_language'' \<longleftrightarrow> str_in ''oral'' (lower arg)"
  "keyword_match arg ''Yr04_print_motivation'' \<longleftrightarrow>
     str_in ''print'' (lower arg) \<and> str_in ''motivation'' (lower arg)"
  by (simp_all add: keyword_match_def category_keywords_def)

lemma str_in_trans: "str_in a b \<Longrightarrow> str_in b c \<Longrightarrow> str_in a c"
proof -
  assume "str_in a b" "str_in b c"
  then obtain u v u' v' where "b = u @ a @ v" "c = u' @ b @ v'"
    by (auto simp: str_in_iff)
  then have "c = (u' @ u) @ a @ (v @ v')" by simp
  then show ?thesis unfolding str_in_iff by blast
qed

lemma lower_names:
  "lower ''Yr04_print_knowledge'' = ''yr04_print_knowledge''"
  "lower ''Yr04_literacy_resources'' = ''yr04_literacy_resources''"
  "lower ''Yr04_oral_language'' = ''yr04_oral_language''"
  "lower ''Yr04_print_motivation'' = ''yr04_print_motivation''"
  by code_simp+

lemma foreign_keywords:
  "\<not> str_in ''oral'' ''yr04_literacy_resources''"
  "\<not> str_in ''oral'' ''yr04_print_knowledge''"
  "\<not> str_in ''literacy'' ''yr04_print_knowledge''"
  "\<not> str_in ''oral'' ''yr04_print_motivation''"
  "\<not> str_in ''literacy'' ''yr04_print_motivation''"
  "\<not> str_in ''knowledge'' ''yr04_print_motivation''"
  "\<not> str_in ''oral'' ''all''"
  "\<not> str_in ''literacy'' ''all''"
  "\<not> str_in ''print'' ''all''"
  by simp_all

lemma resolve_response_find:
  assumes "lower arg \<noteq> ''all''"
  shows "resolve_response arg =
           (case find (keyword_match arg) (map fst category_keywords) of
              Some c \<Rightarrow> Inr [c]
            | None \<Rightarrow> Inl (ValueError (''Response '' @ lower arg @ '' unrecognized'')))"
  using assms
  by (auto simp: resolve_response_def Let_def keyword_match_simps category_keywords_def)

lemma fragment_excludes:
  assumes "matches arg c" and "\<not> str_in w (lower c)"
  shows "\<not> str_in w (lower arg)"
  using assms str_in_trans [of w "lower arg" "lower c"] by (auto simp: matches_def)

lemma keyword_not_all:
  assumes "str_in w (lower arg)" and "\<not> str_in w ''all''"
  shows "lower arg \<noteq> ''all''"
  using assms by auto

lemma fragment_oral:
  assumes m: "matches arg ''Yr04_oral_language''" and k: "keyword_match arg ''Yr04_oral_language''"
  shows "resolve_response arg = Inr [''Yr04_oral_language'']"
proof -
  from k have kw: "str_in ''oral'' (lower arg)"
    unfolding keyword_match_simps by simp_all
  have lc: "lower ''Yr04_oral_language'' = ''yr04_oral_language''" by (rule lower_names)
  have na: "lower arg \<noteq> ''all''"
    using kw(1) by (rule keyword_not_all) (rule foreign_keywords)
  show ?thesis
    unfolding resolve_response_def Let_def using na  kw
    by (simp only: if_False if_True simp_thms)
qed

lemma fragment_literacy:
  assumes m: "matches arg ''Yr04_literacy_resources''" and k: "keyword_match arg ''Yr04_literacy_resources''"
  shows "resolve_response arg = Inr [''Yr04_literacy_resources'']"
proof -
  from k have kw: "str_in ''literacy'' (lower arg)"
    unfolding keyword_match_simps by simp_all
  have lc: "lower ''Yr04_literacy_resources'' = ''yr04_literacy_resources''" by (rule lower_names)
  have n0: "\<not> str_in ''oral'' (lower arg)"
    by (rule fragment_excludes [OF m]) (simp only: lc foreign_keywords not_False_eq_True)
  have na: "lower arg \<noteq> ''all''"
    using kw(1) by (rule keyword_not_all) (rule foreign_keywords)
  show ?thesis
    unfolding resolve_response_def Let_def using na n0 kw
    by (simp only: if_False if_True simp_thms)
qed

lemma fragment_knowledge:
  assumes m: "matches arg ''Yr04_print_knowledge''" and k: "keyword_match arg ''Yr04_print_knowledge''"
  shows "resolve_response arg = Inr [''Yr04_print_knowledge'']"
proof -
  from k have kw: "str_in ''print'' (lower arg)" "str_in ''knowledge'' (lower arg)"
    unfolding keyword_match_simps by simp_all
  have lc: "lower ''Yr04_print_knowledge'' = ''yr04_print_knowledge''" by (rule lower_names)
  have n0: "\<not> str_in ''oral'' (lower arg)"
    by (rule fragment_excludes [OF m]) (simp only: lc foreign_keywords not_False_eq_True)
  have n1: "\<not> str_in ''literacy'' (lower arg)"
    by (rule fragment_excludes [OF m]) (simp only: lc foreign_keywords not_False_eq_True)
  have na: "lower arg \<noteq> ''all''"
    using kw(1) by (rule keyword_not_all) (rule foreign_keywords)
  show ?thesis
    unfolding resolve_response_def Let_def using na n0 n1 kw
    by (simp only: if_False if_True simp_thms)
qed

lemma fragment_motivation:
  assumes m: "matches arg ''Yr04_print_motivation''" and k: "keyword_match arg ''Yr04_print_motivation''"
  shows "resolve_response arg = Inr [''Yr04_print_motivation'']"
proof -
  from k have kw: "str_in ''print'' (lower arg)" "str_in ''motivation'' (lower arg)"
    unfolding keyword_match_simps by simp_all
  have lc: "lower ''Yr04_print_motivation'' = ''yr04_print_motivation''" by (rule lower_names)
  have n0: "\<not> str_in ''oral'' (lower arg)"
    by (rule fragment_excludes [OF m]) (simp only: lc foreign_keywords not_False_eq_True)
  have n1: "\<not> str_in ''literacy'' (lower arg)"
    by (rule fragment_excludes [OF m]) (simp only: lc foreign_keywords not_False_eq_True)
  have n2: "\<not> str_in ''knowledge'' (lower arg)"
    by (rule fragment_excludes [OF m]) (simp only: lc foreign_keywords not_False_eq_True)
  have na: "lower arg \<noteq> ''all''"
    using kw(1) by (rule keyword_not_all) (rule foreign_keywords)
  show ?thesis
    unfolding resolve_response_def Let_def using na n0 n1 n2 kw
    by (simp only: if_False if_True simp_thms)
qed

lemma resolve_response_fragment:
  assumes c: "c \<in> set all_responses" and m: "matches arg c" and k: "keyword_match arg c"
  shows "resolve_response arg = Inr [c]"
proof -
  from c have "c = ''Yr04_print_knowledge'' \<or> c = ''Yr04_literacy_resources'' \<or>
      c = ''Yr04_oral_language'' \<or> c = ''Yr04_print_motivation''"
    unfolding all_responses_def by auto
  then show ?thesis
  proof (elim disjE)
    assume e: "c = ''Yr04_print_knowledge''"
    show ?thesis using m k unfolding e by (rule fragment_knowledge)
  next
    assume e: "c = ''Yr04_literacy_resources''"
    show ?thesis using m k unfolding e by (rule fragment_literacy)
  next
    assume e: "c = ''Yr04_oral_language''"
    show ?thesis using m k unfolding e by (rule fragment_oral)
  next
    assume e: "c = ''Yr04_print_motivation''"
    show ?thesis using m k unfolding e by (rule fragment_motivation)
  qed
qed

text \<open>
  Claim C8, as the code has it. The sentinel \<open>all\<close>, in any case, resolves to the fixed
  list of four response names. Any other selector is resolved by keyword tests on the
  lowercased selector, in the order oral; literacy; print and knowledge; print and
  motivation: it resolves to the category of the first test it passes, and a selector
  that passes none fails with \<^verbatim>\<open>ValueError\<close>, the program's error for an unknown response.
  Every keyword is a fragment of its category's name, and a selector that is a fragment
  of a category's name and passes that category's test resolves to that category.
\<close>

theorem resolve_response_keywords:
  "(lower arg = ''all'' \<longrightarrow> resolve_response arg = Inr all_responses) \<and>
   (lower arg \<noteq> ''all'' \<longrightarrow>
      resolve_response arg =
        (case find (keyword_match arg) (map fst category_keywords) of
           Some c \<Rightarrow> Inr [c]
         | None \<Rightarrow> Inl (ValueError (''Response '' @ lower arg @ '' unrecognized'')))) \<and>
   (\<forall>(c, ks) \<in> set category_keywords.
      c \<in> set all_responses \<and> (\<forall>k \<in> set ks. str_in k (lower c))) \<and>
   (\<forall>c \<in> set all_responses.
      matches arg c \<and> keyword_match arg c \<longrightarrow> resolve_response arg = Inr [c])"
proof (intro conjI impI ballI)
  show "lower arg = ''all'' \<Longrightarrow> resolve_response arg = Inr all_responses"
    by (simp add: resolve_response_def)
next
  assume "lower arg \<noteq> ''all''"
  then show "resolve_response arg =
      (case find (keyword_match arg) (map fst category_keywords) of
         Some c \<Rightarrow> Inr [c]
       | None \<Rightarrow> Inl (ValueError (''Response '' @ lower arg @ '' unrecognized'')))"
    by (rule resolve_response_find)
next
  fix x assume "x \<in> set category_keywords"
  then show "case x of (c, ks) \<Rightarrow>
      c \<in> set all_responses \<and> (\<forall>k \<in> set ks. str_in k (lower c))"
    by (auto simp: category_keywords_def all_responses_def lower_names)
next
  fix c assume "c \<in> set all_responses" "matches arg c \<and> keyword_match arg c"
  then show "resolve_response arg = Inr [c]"
    using resolve_response_fragment by blast
qed

theorem resolve_response_keywords_witness:
  "lower ''ALL'' = ''all'' \<and> resolve_response ''ALL'' = Inr all_responses \<and>
   lower ''a Coral reef'' \<noteq> ''all'' \<and>
   find (keyword_match ''a Coral reef'') (map fst category_keywords) = Some ''Yr04_oral_language'' \<and>
   resolve_response ''a Coral reef'' = Inr [''Yr04_oral_language''] \<and>
   lower ''phonological'' \<noteq> ''all'' \<and>
   find (keyword_match ''phonological'') (map fst category_keywords) = None \<and>
   resolve_response ''phonological'' =
     Inl (ValueError ''Response phonological unrecognized'') \<and>
   ''Yr04_print_knowledge'' \<in> set all_responses \<and>
   matches ''Print_Knowledge'' ''Yr04_print_knowledge'' \<and>
   keyword_match ''Print_Knowledge'' ''Yr04_print_knowledge'' \<and>
   resolve_response ''Print_Knowledge'' = Inr [''Yr04_print_knowledge'']"
proof -
  have a: "lower ''ALL'' = ''all''" by code_simp
  have b: "lower ''a Coral reef'' \<noteq> ''all''" by code_simp
  have b1: "find (keyword_match ''a Coral reef'') (map fst category_keywords) =
      Some ''Yr04_oral_language''" by code_simp
  have c: "lower ''phonological'' \<noteq> ''all''" by code_simp
  have c1: "find (keyword_match ''phonological'') (map fst category_keywords) = None"
    by code_simp
  have c2: "lower ''phonological'' = ''phonological''" by code_simp
  have d: "''Yr04_print_knowledge'' \<in> set all_responses" by (simp add: all_responses_def)
  have d1: "matches ''Print_Knowledge'' ''Yr04_print_knowledge''" by code_simp
  have d2: "keyword_match ''Print_Knowledge'' ''Yr04_print_knowledge''" by code_simp
  have "resolve_response ''ALL'' = Inr all_responses"
    using a resolve_response_keywords [of "''ALL''"] by blast
  moreover have "resolve_response ''a Coral reef'' = Inr [''Yr04_oral_language'']"
    using b b1 resolve_response_keywords [of "''a Coral reef''"] by simp
  moreover have "resolve_response ''phonological'' =
      Inl (ValueError ''Response phonological unrecognized'')"
    using c c1 c2 resolve_response_keywords [of "''phonological''"] by simp
  moreover have "resolve_response ''Print_Knowledge'' = Inr [''Yr04_print_knowledge'']"
    using d d1 d2 resolve_response_keywords [of "''Print_Knowledge''"] by blast
  ultimately show ?thesis using a b b1 c c1 d d1 d2 by blast
qed

text \<open>
  Claim C8, as stated, fails in both directions. The selectors \<open>knowledge\<close> and
  \<open>language\<close> each occur in one category name and are rejected; the selector \<open>coral\<close>
  occurs in no category name and is resolved to a category.
\<close>

theorem resolve_response_substring_counterexample:
  "matches ''knowledge'' ''Yr04_print_knowledge'' \<and>
   resolve_response ''knowledge'' = Inl (ValueError ''Response knowledge unrecognized'') \<and>
   matches ''language'' ''Yr04_oral_language'' \<and>
   resolve_response ''language'' = Inl (ValueError ''Response language unrecognized'') \<and>
   \<not> (\<exists>c \<in> set all_responses. matches ''coral'' c) \<and>
   resolve_response ''coral'' = Inr [''Yr04_oral_language'']"
  by code_simp

text \<open>
  Claim C10. Resolution is case-insensitive: a selector and any case variant of it
  resolve to the same list of response names, or fail with the same error.
\<close>

theorem resolve_response_case_insensitive:
  "case_variant s t \<Longrightarrow> resolve_response s = resolve_response t"
proof -
  assume "case_variant s t"
  then have "lower s = lower t" by (rule case_variant_lower_eq)
  then show ?thesis by (simp add: resolve_response_def)
qed

theorem resolve_response_case_insensitive_witness:
  "case_variant ''Oral Language'' ''oRAL lANGUAGE'' \<and>
   resolve_response ''Oral Language'' = resolve_response ''oRAL lANGUAGE''"
proof -
  have h: "case_variant ''Oral Language'' ''oRAL lANGUAGE''"
    by code_simp
  show ?thesis using h resolve_response_case_insensitive [OF h] by simp
qed

section \<open>Claims about the bootstrap loop\<close>

lemma cte_boostrap_loop:
  assumes "pull_classroom_data ext response = Inr (X, y)"
    and "load_cache fs (''results/bootstrap/'' @ response @ ''_bootstrap_coeffs.csv'') =
           Inr (coeffs, precomputed)"
    and "load_cache fs (''results/old/'' @ response @ ''_bootstrap_coeffs.csv'') =
           Inr (old_coeffs, old_precomputed)"
  shows "cte_boostrap ext (Some N) response fs =
           (bootstrap_loop (bootstrap_seed ext X y (length (rows X)) old_coeffs old_precomputed)
              precomputed (''results/bootstrap/'' @ response @ ''_bootstrap_coeffs.csv'')
              coeffs fs [0..<nat N])
           \<lparr>trace := PullData response #
              trace (bootstrap_loop
                (bootstrap_seed ext X y (length (rows X)) old_coeffs old_precomputed)
                precomputed (''results/bootstrap/'' @ response @ ''_bootstrap_coeffs.csv'')
                coeffs fs [0..<nat N])\<rparr>"
  using assms by (simp add: cte_boostrap_def Let_def)

text \<open>
  Claim C1, as the code has it. In a bootstrap run that completes, Grid Search is invoked
  once for every seed that requires a fit (every seed below the sample count that is in
  neither the current nor the legacy cache) and for no other seed, each time on the full,
  unresampled data with grid size 5; the pair is not kept from one seed to the next.
\<close>

theorem grid_search_per_fitted_seed:
  assumes "pull_classroom_data ext response = Inr (X, y)"
    and "load_cache fs (''results/bootstrap/'' @ response @ ''_bootstrap_coeffs.csv'') =
           Inr (coeffs, precomputed)"
    and "load_cache fs (''results/old/'' @ response @ ''_bootstrap_coeffs.csv'') =
           Inr (old_coeffs, old_precomputed)"
    and "raised (cte_boostrap ext (Some N) response fs) = None"
  shows "filter is_grid_search (trace (cte_boostrap ext (Some N) response fs)) =
           map (\<lambda>b. GridSearch X y (Some 5))
             (filter (\<lambda>b. \<not> seed_in b precomputed \<and> \<not> seed_in b old_precomputed)
                [0..<nat N])"
proof -
  note loop = cte_boostrap_loop [OF assms(1-3), of N]
  from assms(4) have "raised (bootstrap_loop
      (bootstrap_seed ext X y (length (rows X)) old_coeffs old_precomputed)
      precomputed (''results/bootstrap/'' @ response @ ''_bootstrap_coeffs.csv'')
      coeffs fs [0..<nat N]) = None"
    by (simp add: loop)
  from grid_events_loop [OF this] show ?thesis by (simp add: loop)
qed

theorem grid_search_per_fitted_seed_witness:
  "pull_classroom_data example_ext ''r'' = Inr (example_X, example_y) \<and>
   load_cache Map.empty (''results/bootstrap/'' @ ''r'' @ ''_bootstrap_coeffs.csv'') =
     Inr (empty_frame, []) \<and>
   load_cache Map.empty (''results/old/'' @ ''r'' @ ''_bootstrap_coeffs.csv'') =
     Inr (empty_frame, []) \<and>
   raised (cte_boostrap example_ext (Some 2) ''r'' Map.empty) = None \<and>
   filter is_grid_search (trace (cte_boostrap example_ext (Some 2) ''r'' Map.empty)) =
     [GridSearch example_X example_y (Some 5), GridSearch example_X example_y (Some 5)]"
proof -
  have a: "pull_classroom_data example_ext ''r'' = Inr (example_X, example_y)"
    by (simp add: example_ext_def)
  have b: "load_cache Map.empty (''results/bootstrap/'' @ ''r'' @ ''_bootstrap_coeffs.csv'') =
      Inr (empty_frame, [])"
    by (simp add: load_cache_def)
  have c: "load_cache Map.empty (''results/old/'' @ ''r'' @ ''_bootstrap_coeffs.csv'') =
      Inr (empty_frame, [])"
    by (simp add: load_cache_def)
  have d: "raised (cte_boostrap example_ext (Some 2) ''r'' Map.empty) = None"
    by code_simp
  have e: "filter (\<lambda>b. \<not> seed_in b [] \<and> \<not> seed_in b []) [0..<nat 2] = [0, 1]"
    by code_simp
  from grid_search_per_fitted_seed [OF a b c d] a b c d show ?thesis
    by (simp only: e) simp
qed

text \<open>
  Claim C1, as stated, fails: with two samples and no cache, Grid Search is invoked
  twice for the one response, once per seed.
\<close>

theorem grid_search_repeated_counterexample:
  "length (filter is_grid_search (trace (cte_boostrap example_ext (Some 2) ''r'' Map.empty))) = 2 \<and>
   \<not> length (filter is_grid_search (trace (cte_boostrap example_ext (Some 2) ''r'' Map.empty))) \<le> 1"
  by code_simp

lemma sorted_take_filter_upt:
  "sorted_wrt (<) (take k (filter P [0..<n]))"
proof -
  have "sorted_wrt (<) (filter P [0..<n])" by (simp add: sorted_wrt_filter)
  then show ?thesis by (rule sorted_wrt_take)
qed

lemma resume_bounds:
  assumes "pull_classroom_data ext response = Inr (X, y)"
    and "load_cache fs (''results/bootstrap/'' @ response @ ''_bootstrap_coeffs.csv'') =
           Inr (coeffs, precomputed)"
    and "load_cache fs (''results/old/'' @ response @ ''_bootstrap_coeffs.csv'') =
           Inr (old_coeffs, old_precomputed)"
  shows "sorted_wrt (<) (worked_seeds (trace (cte_boostrap ext (Some N) response fs))) \<and>
         set (worked_seeds (trace (cte_boostrap ext (Some N) response fs)))
           \<subseteq> {b. b < nat N \<and> \<not> seed_in b precomputed} \<and>
         (files_after (cte_boostrap ext (Some N) response fs) = fs \<or>
          (\<exists>f' new.
             files_after (cte_boostrap ext (Some N) response fs) =
               fs(''results/bootstrap/'' @ response @ ''_bootstrap_coeffs.csv'' \<mapsto> f') \<and>
             map tl (rows f') = rows coeffs @ new \<and>
             (\<forall>s \<in> set new. \<exists>b. b < nat N \<and> \<not> seed_in b precomputed \<and>
                cell_at s ''seed'' = Num (real b)))) \<and>
         ((\<forall>b < nat N. seed_in b precomputed) \<longrightarrow>
            cte_boostrap ext (Some N) response fs =
              \<lparr>files_after = fs, trace = [PullData response], raised = None\<rparr>)"
proof -
  let ?path = "''results/bootstrap/'' @ response @ ''_bootstrap_coeffs.csv''"
  let ?body = "bootstrap_seed ext X y (length (rows X)) old_coeffs old_precomputed"
  let ?loop = "bootstrap_loop ?body precomputed ?path coeffs fs [0..<nat N]"
  note loop = cte_boostrap_loop [OF assms, of N]
  have tr: "worked_seeds (trace (cte_boostrap ext (Some N) response fs)) =
      worked_seeds (trace ?loop)"
    by (simp add: loop)
  from worked_seeds_loop [of ?body precomputed ?path coeffs fs "[0..<nat N]"]
  obtain k where k: "worked_seeds (trace ?loop) =
      take k (filter (\<lambda>b. \<not> seed_in b precomputed) [0..<nat N])"
    using worked_seeds_bootstrap_seed by blast
  have sorted: "sorted_wrt (<) (worked_seeds (trace (cte_boostrap ext (Some N) response fs)))"
    unfolding tr k by (rule sorted_take_filter_upt)
  have "set (take k (filter (\<lambda>b. \<not> seed_in b precomputed) [0..<nat N]))
      \<subseteq> set (filter (\<lambda>b. \<not> seed_in b precomputed) [0..<nat N])"
    by (rule set_take_subset)
  then have sub: "set (worked_seeds (trace (cte_boostrap ext (Some N) response fs)))
      \<subseteq> {b. b < nat N \<and> \<not> seed_in b precomputed}"
    unfolding tr k by auto
  from loop_files [of "[0..<nat N]" precomputed ?body ?path coeffs fs]
  obtain new where
    h: "set new \<subseteq> {s. \<exists>b \<in> set [0..<nat N]. \<not> seed_in b precomputed \<and> snd (?body b) = Inr s} \<and>
      (new = [] \<and> files_after ?loop = fs \<or>
       new \<noteq> [] \<and> files_after ?loop = to_csv fs ?path (foldl frame_append coeffs new))"
    ..
  have new: "\<forall>s \<in> set new. \<exists>b. b < nat N \<and> \<not> seed_in b precomputed \<and>
      cell_at s ''seed'' = Num (real b)"
  proof
    fix s assume "s \<in> set new"
    with h obtain b where "b \<in> set [0..<nat N]" "\<not> seed_in b precomputed"
      "snd (?body b) = Inr s" by blast
    with bootstrap_seed_seed [of ext X y "length (rows X)" old_coeffs old_precomputed b s]
    show "\<exists>b. b < nat N \<and> \<not> seed_in b precomputed \<and> cell_at s ''seed'' = Num (real b)"
      by auto
  qed
  have fa: "files_after (cte_boostrap ext (Some N) response fs) = files_after ?loop"
    by (simp add: loop)
  have files: "files_after (cte_boostrap ext (Some N) response fs) = fs \<or>
     (\<exists>f' new.
        files_after (cte_boostrap ext (Some N) response fs) = fs(?path \<mapsto> f') \<and>
        map tl (rows f') = rows coeffs @ new \<and>
        (\<forall>s \<in> set new. \<exists>b. b < nat N \<and> \<not> seed_in b precomputed \<and>
           cell_at s ''seed'' = Num (real b)))"
  proof (cases "new = []")
    case True
    with h fa show ?thesis by simp
  next
    case False
    let ?f = "foldl frame_append coeffs new"
    let ?w = "\<lparr>columns = ''Unnamed: 0'' # columns ?f,
        rows = map (\<lambda>(i, r). (''Unnamed: 0'', Num (real i)) # r) (enumerate 0 (rows ?f))\<rparr>"
    from False h fa have "files_after (cte_boostrap ext (Some N) response fs) = fs(?path \<mapsto> ?w)"
      by (simp add: to_csv_def)
    moreover have "map tl (rows ?w) = rows coeffs @ new"
    proof -
      have "map tl (rows ?w) = map snd (enumerate 0 (rows ?f))"
        by (simp add: case_prod_unfold comp_def)
      then show ?thesis by (simp add: rows_foldl_append)
    qed
    ultimately show ?thesis using new by blast
  qed
  have complete: "(\<forall>b < nat N. seed_in b precomputed) \<longrightarrow>
      cte_boostrap ext (Some N) response fs =
        \<lparr>files_after = fs, trace = [PullData response], raised = None\<rparr>"
  proof
    assume "\<forall>b < nat N. seed_in b precomputed"
    then have "\<forall>b \<in> set [0..<nat N]. seed_in b precomputed" by simp
    from loop_all_cached [OF this] show "cte_boostrap ext (Some N) response fs =
        \<lparr>files_after = fs, trace = [PullData response], raised = None\<rparr>"
      by (simp add: loop)
  qed
  from sorted sub files complete show ?thesis by blast
qed

text \<open>
  Claim C5. A run works through the seeds below the sample count that are not in the
  loaded current cache, in strictly increasing order: each of them in turn is worked on,
  its record is appended and the cache is written, until the seeds are exhausted or one
  of them raises, which ends the run. A seed of the loaded cache is never worked on, and
  the rows that were loaded stay, unchanged and in their order, at the head of every
  cache that is written. When every seed below the sample count is in the loaded cache,
  the run calls no collaborator after loading the data and writes nothing.
\<close>

theorem resume_skips_cached_seeds:
  fixes ext :: ext and X :: frame and y :: "cell list" and N :: int
  assumes p: "pull_classroom_data ext response = Inr (X, y)"
    and c: "load_cache fs (''results/bootstrap/'' @ response @ ''_bootstrap_coeffs.csv'') =
           Inr (coeffs, precomputed)"
    and ol: "load_cache fs (''results/old/'' @ response @ ''_bootstrap_coeffs.csv'') =
           Inr (old_coeffs, old_precomputed)"
  defines "r \<equiv> cte_boostrap ext (Some N) response fs"
    and "path \<equiv> ''results/bootstrap/'' @ response @ ''_bootstrap_coeffs.csv''"
    and "body \<equiv> bootstrap_seed ext X y (length (rows X)) old_coeffs old_precomputed"
    and "U \<equiv> filter (\<lambda>b. \<not> seed_in b precomputed) [0..<nat N]"
  shows "sorted_wrt (<) (worked_seeds (trace r)) \<and>
         set (worked_seeds (trace r)) \<subseteq> {b. b < nat N \<and> \<not> seed_in b precomputed} \<and>
         (files_after r = fs \<or>
          (\<exists>f' new.
             files_after r = fs(path \<mapsto> f') \<and>
             map tl (rows f') = rows coeffs @ new \<and>
             (\<forall>s \<in> set new. \<exists>b. b < nat N \<and> \<not> seed_in b precomputed \<and>
                cell_at s ''seed'' = Num (real b)))) \<and>
         ((\<forall>b < nat N. seed_in b precomputed) \<longrightarrow>
            r = \<lparr>files_after = fs, trace = [PullData response], raised = None\<rparr>) \<and>
         (\<exists>k new.
            k \<le> length U \<and>
            map Inr new = map (\<lambda>b. snd (body b)) (take k U) \<and>
            (k = 0 \<and> files_after r = fs \<or>
             k \<noteq> 0 \<and> (\<exists>f'. files_after r = fs(path \<mapsto> f') \<and>
                           map tl (rows f') = rows coeffs @ new)) \<and>
            (raised r = None \<and> k = length U \<and>
             trace r = PullData response # concat (map (\<lambda>b. fst (body b) @ [ToCsv path]) U) \<and>
             worked_seeds (trace r) = U
             \<or>
             k < length U \<and>
             (\<exists>e. snd (body (U ! k)) = Inl e \<and> raised r = Some e) \<and>
             trace r =
               PullData response #
               concat (map (\<lambda>b. fst (body b) @ [ToCsv path]) (take k U)) @ fst (body (U ! k)) \<and>
             worked_seeds (trace r) = take (Suc k) U))"
proof -
  let ?loop = "bootstrap_loop body precomputed path coeffs fs [0..<nat N]"
  have loop: "r = ?loop\<lparr>trace := PullData response # trace ?loop\<rparr>"
    unfolding r_def body_def path_def by (rule cte_boostrap_loop [OF p c ol])
  have bounds: "sorted_wrt (<) (worked_seeds (trace r)) \<and>
         set (worked_seeds (trace r)) \<subseteq> {b. b < nat N \<and> \<not> seed_in b precomputed} \<and>
         (files_after r = fs \<or>
          (\<exists>f' new.
             files_after r = fs(path \<mapsto> f') \<and>
             map tl (rows f') = rows coeffs @ new \<and>
             (\<forall>s \<in> set new. \<exists>b. b < nat N \<and> \<not> seed_in b precomputed \<and>
                cell_at s ''seed'' = Num (real b)))) \<and>
         ((\<forall>b < nat N. seed_in b precomputed) \<longrightarrow>
            r = \<lparr>files_after = fs, trace = [PullData response], raised = None\<rparr>)"
    unfolding r_def path_def by (rule resume_bounds [OF p c ol])
  have wb: "\<And>b. worked_seeds (fst (body b)) = [b]"
    unfolding body_def by (rule worked_seeds_bootstrap_seed)
  have "\<exists>k new. k \<le> length U \<and>
     map Inr new = map (\<lambda>b. snd (body b)) (take k U) \<and>
     files_after ?loop = (if k = 0 then fs else to_csv fs path (foldl frame_append coeffs new)) \<and>
     (raised ?loop = None \<and> k = length U \<and>
        trace ?loop = concat (map (\<lambda>b. fst (body b) @ [ToCsv path]) U)
      \<or> k < length U \<and>
        (\<exists>e. snd (body (U ! k)) = Inl e \<and> raised ?loop = Some e) \<and>
        trace ?loop = concat (map (\<lambda>b. fst (body b) @ [ToCsv path]) (take k U)) @
          fst (body (U ! k)))"
    unfolding U_def by (rule loop_shape)
  then obtain k new where h: "k \<le> length U \<and>
     map Inr new = map (\<lambda>b. snd (body b)) (take k U) \<and>
     files_after ?loop = (if k = 0 then fs else to_csv fs path (foldl frame_append coeffs new)) \<and>
     (raised ?loop = None \<and> k = length U \<and>
        trace ?loop = concat (map (\<lambda>b. fst (body b) @ [ToCsv path]) U)
      \<or> k < length U \<and>
        (\<exists>e. snd (body (U ! k)) = Inl e \<and> raised ?loop = Some e) \<and>
        trace ?loop = concat (map (\<lambda>b. fst (body b) @ [ToCsv path]) (take k U)) @
          fst (body (U ! k)))"
    by (elim exE)
  from h have k: "k \<le> length U" by (rule conjunct1)
  from h have new: "map Inr new = map (\<lambda>b. snd (body b)) (take k U)"
    by (elim conjE)
  from h have files: "files_after ?loop =
      (if k = 0 then fs else to_csv fs path (foldl frame_append coeffs new))"
    by (elim conjE)
  from h have alt: "raised ?loop = None \<and> k = length U \<and>
        trace ?loop = concat (map (\<lambda>b. fst (body b) @ [ToCsv path]) U)
      \<or> k < length U \<and>
        (\<exists>e. snd (body (U ! k)) = Inl e \<and> raised ?loop = Some e) \<and>
        trace ?loop = concat (map (\<lambda>b. fst (body b) @ [ToCsv path]) (take k U)) @
          fst (body (U ! k))"
    by (elim conjE)
  have fa: "files_after r = files_after ?loop" and ra: "raised r = raised ?loop"
    and tr: "trace r = PullData response # trace ?loop"
    by (simp_all add: loop)
  have files': "k = 0 \<and> files_after r = fs \<or>
      k \<noteq> 0 \<and> (\<exists>f'. files_after r = fs(path \<mapsto> f') \<and> map tl (rows f') = rows coeffs @ new)"
  proof (cases "k = 0")
    case True
    with files fa show ?thesis by simp
  next
    case False
    let ?f = "foldl frame_append coeffs new"
    let ?w = "\<lparr>columns = ''Unnamed: 0'' # columns ?f,
        rows = map (\<lambda>(i, r). (''Unnamed: 0'', Num (real i)) # r) (enumerate 0 (rows ?f))\<rparr>"
    from False files fa have "files_after r = fs(path \<mapsto> ?w)"
      by (simp add: to_csv_def)
    moreover have "map tl (rows ?w) = rows coeffs @ new"
    proof -
      have "map tl (rows ?w) = map snd (enumerate 0 (rows ?f))"
        by (simp add: case_prod_unfold comp_def)
      then show ?thesis by (simp add: rows_foldl_append)
    qed
    ultimately show ?thesis using False by blast
  qed
  from alt have alt': "raised r = None \<and> k = length U \<and>
       trace r = PullData response # concat (map (\<lambda>b. fst (body b) @ [ToCsv path]) U) \<and>
       worked_seeds (trace r) = U
     \<or> k < length U \<and>
       (\<exists>e. snd (body (U ! k)) = Inl e \<and> raised r = Some e) \<and>
       trace r = PullData response #
         concat (map (\<lambda>b. fst (body b) @ [ToCsv path]) (take k U)) @ fst (body (U ! k)) \<and>
       worked_seeds (trace r) = take (Suc k) U"
  proof (elim disjE conjE exE)
    assume a: "raised ?loop = None" "k = length U"
      "trace ?loop = concat (map (\<lambda>b. fst (body b) @ [ToCsv path]) U)"
    have "worked_seeds (trace r) = U"
      unfolding tr a(3) using worked_seeds_concat [of body path U, OF wb] by simp
    with a show ?thesis unfolding ra tr by (intro disjI1) simp
  next
    fix e
    assume a: "k < length U" "snd (body (U ! k)) = Inl e" "raised ?loop = Some e"
      "trace ?loop = concat (map (\<lambda>b. fst (body b) @ [ToCsv path]) (take k U)) @
         fst (body (U ! k))"
    have "worked_seeds (trace r) = take k U @ [U ! k]"
      unfolding tr a(4)
      using worked_seeds_concat [of body path "take k U", OF wb] wb [of "U ! k"]
      by (simp add: worked_seeds_append)
    then have "worked_seeds (trace r) = take (Suc k) U"
      using a(1) by (simp add: take_Suc_conv_app_nth)
    with a show ?thesis unfolding ra tr by (intro disjI2) simp
  qed
  from k new files' alt' have shape: "\<exists>k new.
      k \<le> length U \<and>
      map Inr new = map (\<lambda>b. snd (body b)) (take k U) \<and>
      (k = 0 \<and> files_after r = fs \<or>
       k \<noteq> 0 \<and> (\<exists>f'. files_after r = fs(path \<mapsto> f') \<and>
                     map tl (rows f') = rows coeffs @ new)) \<and>
      (raised r = None \<and> k = length U \<and>
       trace r = PullData response # concat (map (\<lambda>b. fst (body b) @ [ToCsv path]) U) \<and>
       worked_seeds (trace r) = U
       \<or>
       k < length U \<and>
       (\<exists>e. snd (body (U ! k)) = Inl e \<and> raised r = Some e) \<and>
       trace r =
         PullData response #
         concat (map (\<lambda>b. fst (body b) @ [ToCsv path]) (take k U)) @ fst (body (U ! k)) \<and>
       worked_seeds (trace r) = take (Suc k) U)"
    by (intro exI [of _ k] exI [of _ new] conjI)
  from bounds shape show ?thesis by (intro conjI) (elim conjE, assumption)+
qed

theorem resume_skips_cached_seeds_witness:
  "pull_classroom_data example_ext ''r'' = Inr (example_X, example_y) \<and>
   load_cache example_cache_files (''results/bootstrap/'' @ ''r'' @ ''_bootstrap_coeffs.csv'') =
     Inr (drop_unnamed example_cache, [Num 0, Num 1]) \<and>
   load_cache example_cache_files (''results/old/'' @ ''r'' @ ''_bootstrap_coeffs.csv'') =
     Inr (empty_frame, []) \<and>
   seed_in 0 [Num 0, Num 1] \<and> seed_in 1 [Num 0, Num 1] \<and>
   cte_boostrap example_ext (Some 2) ''r'' example_cache_files =
     \<lparr>files_after = example_cache_files, trace = [PullData ''r''], raised = None\<rparr> \<and>
   load_cache example_partial_files (''results/bootstrap/'' @ ''r'' @ ''_bootstrap_coeffs.csv'') =
     Inr (drop_unnamed example_partial_cache, [Num 0]) \<and>
   load_cache example_partial_files (''results/old/'' @ ''r'' @ ''_bootstrap_coeffs.csv'') =
     Inr (empty_frame, []) \<and>
   raised (cte_boostrap example_ext (Some 2) ''r'' example_partial_files) = None \<and>
   worked_seeds (trace (cte_boostrap example_ext (Some 2) ''r'' example_partial_files)) = [1] \<and>
   files_after (cte_boostrap example_ext (Some 2) ''r'' example_partial_files)
     ''results/bootstrap/r_bootstrap_coeffs.csv'' =
     Some \<lparr>columns = [''Unnamed: 0'', ''a_b_interaction'', ''a'', ''b'', ''seed''],
           rows = [[(''Unnamed: 0'', Num 0), (''a_b_interaction'', Num 0), (''a'', Num 5),
                    (''b'', Num 6), (''seed'', Num 0)],
                   [(''Unnamed: 0'', Num 1), (''a_b_interaction'', Num 0), (''a'', Num 7),
                    (''b'', Num 7), (''seed'', Num 1)]]\<rparr>"
proof -
  have a: "pull_classroom_data example_ext ''r'' = Inr (example_X, example_y)"
    by (simp add: example_ext_def)
  have b: "load_cache example_cache_files (''results/bootstrap/'' @ ''r'' @ ''_bootstrap_coeffs.csv'') =
      Inr (drop_unnamed example_cache, [Num 0, Num 1])"
    by (simp add: load_cache_def example_cache_files_def seed_values_def drop_unnamed_def
        example_cache_def cell_at_def Let_def)
  have c: "load_cache example_cache_files (''results/old/'' @ ''r'' @ ''_bootstrap_coeffs.csv'') =
      Inr (empty_frame, [])"
    by (simp add: load_cache_def example_cache_files_def)
  have d: "seed_in 0 [Num 0, Num 1]" "seed_in 1 [Num 0, Num 1]"
    by (simp_all add: seed_in_def)
  then have e: "\<forall>b < nat 2. seed_in b [Num 0, Num 1]"
    by (auto simp: less_Suc_eq numeral_2_eq_2)
  have "(\<forall>b < nat 2. seed_in b [Num 0, Num 1]) \<longrightarrow>
      cte_boostrap example_ext (Some 2) ''r'' example_cache_files =
        \<lparr>files_after = example_cache_files, trace = [PullData ''r''], raised = None\<rparr>"
    using resume_skips_cached_seeds [OF a b c, of 2] by (elim conjE)
  with e have f: "cte_boostrap example_ext (Some 2) ''r'' example_cache_files =
      \<lparr>files_after = example_cache_files, trace = [PullData ''r''], raised = None\<rparr>"
    by (rule rev_mp)
  have b': "load_cache example_partial_files
      (''results/bootstrap/'' @ ''r'' @ ''_bootstrap_coeffs.csv'') =
      Inr (drop_unnamed example_partial_cache, [Num 0])"
    by (simp add: load_cache_def example_partial_files_def seed_values_def drop_unnamed_def
        example_partial_cache_def cell_at_def Let_def)
  have c': "load_cache example_partial_files (''results/old/'' @ ''r'' @ ''_bootstrap_coeffs.csv'') =
      Inr (empty_frame, [])"
    by (simp add: load_cache_def example_partial_files_def)
  let ?r = "cte_boostrap example_ext (Some 2) ''r'' example_partial_files"
  have g: "raised ?r = None" by code_simp
  have u: "filter (\<lambda>b. \<not> seed_in b [Num 0]) [0..<nat 2] = [1]" by code_simp
  have "\<exists>k (new :: series list).
      (raised ?r = None \<and> k = length (filter (\<lambda>b. \<not> seed_in b [Num 0]) [0..<nat 2]) \<and>
       worked_seeds (trace ?r) = filter (\<lambda>b. \<not> seed_in b [Num 0]) [0..<nat 2]
       \<or> (\<exists>e. raised ?r = Some e))"
    using resume_skips_cached_seeds [OF a b' c', of 2]
    by (elim conjE exE disjE) blast+
  with g have "worked_seeds (trace ?r) = filter (\<lambda>b. \<not> seed_in b [Num 0]) [0..<nat 2]"
    by (elim exE disjE conjE) simp_all
  then have h: "worked_seeds (trace ?r) = [1]" by (simp only: u)
  have i: "files_after ?r ''results/bootstrap/r_bootstrap_coeffs.csv'' =
     Some \<lparr>columns = [''Unnamed: 0'', ''a_b_interaction'', ''a'', ''b'', ''seed''],
           rows = [[(''Unnamed: 0'', Num 0), (''a_b_interaction'', Num 0), (''a'', Num 5),
                    (''b'', Num 6), (''seed'', Num 0)],
                   [(''Unnamed: 0'', Num 1), (''a_b_interaction'', Num 0), (''a'', Num 7),
                    (''b'', Num 7), (''seed'', Num 1)]]\<rparr>"
    by code_simp
  from a b c d f b' c' g h i show ?thesis by (intro conjI)
qed

text \<open>
  Claim C6. For a seed \<open>b\<close> the generator is reseeded with \<open>b\<close> and asked for \<open>n\<close>
  indices from \<open>[0, n)\<close>, \<open>n\<close> the number of rows of the design matrix; when the draw
  stays in that range, the resampled design matrix and response vector are the rows at
  the drawn positions, in the order drawn and with their repetitions, and these are the
  data that the fits of that seed receive. How the indices are distributed is the
  contract of the generator.
\<close>

theorem resample_rows_as_drawn:
  assumes "randint ext b 0 (length (rows X)) (length (rows X)) = Inr sample_inds"
    and "\<forall>i \<in> set sample_inds. i < length (rows X)"
    and "length y = length (rows X)"
  shows "resample ext X y (length (rows X)) b =
           ([RandomSeed b, Randint 0 (length (rows X)) (length (rows X))],
            Inr (\<lparr>columns = columns X, rows = map (\<lambda>i. rows X ! i) sample_inds\<rparr>,
                 map (\<lambda>i. y ! i) sample_inds)) \<and>
         bootstrap_seed ext X y (length (rows X)) old_coeffs old_precomputed b =
           and_then
             (call (Working b) (Inr ()))
             (\<lambda>_. and_then
               (resample ext X y (length (rows X)) b)
               (\<lambda>_. and_then
                 (regularized_params ext X y (length (rows X))
                    \<lparr>columns = columns X, rows = map (\<lambda>i. rows X ! i) sample_inds\<rparr>
                    (map (\<lambda>i. y ! i) sample_inds) old_coeffs old_precomputed b)
                 (\<lambda>result_params.
                    refit_record ext
                      \<lparr>columns = columns X, rows = map (\<lambda>i. rows X ! i) sample_inds\<rparr>
                      (map (\<lambda>i. y ! i) sample_inds) result_params b)))"
proof -
  from assms(2) have inX: "list_all (\<lambda>i. i < length (rows X)) sample_inds"
    by (simp add: list_all_iff)
  with assms(3) have inY: "list_all (\<lambda>i. i < length y) sample_inds" by simp
  have r: "resample ext X y (length (rows X)) b =
      ([RandomSeed b, Randint 0 (length (rows X)) (length (rows X))],
       Inr (\<lparr>columns = columns X, rows = map (\<lambda>i. rows X ! i) sample_inds\<rparr>,
            map (\<lambda>i. y ! i) sample_inds))"
    using assms(1) inX inY
    by (simp add: resample_def and_then_def call_def lift_def frame_iloc_def iloc_def)
  show ?thesis
    by (simp add: r bootstrap_seed_def) (simp add: and_then_def)
qed

theorem resample_rows_as_drawn_witness:
  "randint example_ext 1 0 (length (rows example_X)) (length (rows example_X)) = Inr [1, 0] \<and>
   list_all (\<lambda>i. i < length (rows example_X)) [1, 0] \<and>
   length example_y = length (rows example_X) \<and>
   resample example_ext example_X example_y (length (rows example_X)) 1 =
     ([RandomSeed 1, Randint 0 2 2],
      Inr (\<lparr>columns = [''a'', ''b'', ''a_b_interaction''],
            rows = [[(''a'', Num 3), (''b'', Num 4), (''a_b_interaction'', Num 12)],
                    [(''a'', Num 1), (''b'', Num 2), (''a_b_interaction'', Num 2)]]\<rparr>,
           [Num 20, Num 10]))"
proof -
  have a: "randint example_ext 1 0 (length (rows example_X)) (length (rows example_X)) = Inr [1, 0]"
    by code_simp
  have b: "\<forall>i \<in> set [1, 0]. i < length (rows example_X)"
    by (simp add: example_X_def)
  have b': "list_all (\<lambda>i. i < length (rows example_X)) [1, 0]"
    by (simp add: example_X_def)
  have c: "length example_y = length (rows example_X)"
    by (simp add: example_X_def example_y_def)
  from resample_rows_as_drawn [OF a b c]
  have "resample example_ext example_X example_y (length (rows example_X)) 1 =
     ([RandomSeed 1, Randint 0 (length (rows example_X)) (length (rows example_X))],
      Inr (\<lparr>columns = columns example_X, rows = map (\<lambda>i. rows example_X ! i) [1, 0]\<rparr>,
           map (\<lambda>i. example_y ! i) [1, 0]))"
    by (rule conjunct1)
  then have "resample example_ext example_X example_y (length (rows example_X)) 1 =
     ([RandomSeed 1, Randint 0 2 2],
      Inr (\<lparr>columns = [''a'', ''b'', ''a_b_interaction''],
            rows = [[(''a'', Num 3), (''b'', Num 4), (''a_b_interaction'', Num 12)],
                    [(''a'', Num 1), (''b'', Num 2), (''a_b_interaction'', Num 2)]]\<rparr>,
           [Num 20, Num 10]))"
    by (simp add: example_X_def example_y_def)
  with a b' c show ?thesis by blast
qed

section \<open>Facts about selection and the new record\<close>

lemma selected_nonselected_union:
  "set (selected_of p) \<union> set (nonselected_of p) = set (map fst p)"
  by (auto simp: selected_of_def nonselected_of_def image_iff)

lemma selected_nonselected_disjoint:
  assumes "distinct (map fst p)"
  shows "set (selected_of p) \<inter> set (nonselected_of p) = {}"
proof -
  have "\<And>c v w. (c, v) \<in> set p \<Longrightarrow> (c, w) \<in> set p \<Longrightarrow> v = w"
    using assms by (meson eq_key_imp_eq_value)
  then show ?thesis
    by (fastforce simp: selected_of_def nonselected_of_def)
qed

lemma selected_nonselected_length:
  "length (selected_of p) + length (nonselected_of p) = length p"
proof -
  have "filter (\<lambda>(c, v). v = Num 0) p = filter (\<lambda>x. \<not> (case x of (c, v) \<Rightarrow> v \<noteq> Num 0)) p"
    by (rule filter_cong) auto
  then show ?thesis
    by (simp add: selected_of_def nonselected_of_def sum_length_filter_compl)
qed

lemma distinct_selected: "distinct (map fst p) \<Longrightarrow> distinct (selected_of p)"
  by (simp add: selected_of_def distinct_map_filter)

lemma distinct_nonselected: "distinct (map fst p) \<Longrightarrow> distinct (nonselected_of p)"
  by (simp add: nonselected_of_def distinct_map_filter)

lemma nonselected_zero:
  assumes "distinct (map fst p)" and "c \<in> set (nonselected_of p)"
  shows "cell_at p c = Num 0"
proof -
  from assms(2) have "(c, Num 0) \<in> set p" by (auto simp: nonselected_of_def)
  with assms(1) have "map_of p c = Some (Num 0)" by simp
  then show ?thesis by (simp add: cell_at_def)
qed

lemma map_fst_series_select: "map fst (series_select s ls) = ls"
  by (simp add: series_select_def comp_def)

lemma cell_at_series_select: "c \<in> set ls \<Longrightarrow> cell_at (series_select s ls) c = cell_at s c"
proof -
  assume "c \<in> set ls"
  then have "map_of (map (\<lambda>l. (l, cell_at s l)) ls) c = Some (cell_at s c)"
    by (induction ls) auto
  then show ?thesis by (simp add: series_select_def cell_at_def)
qed

lemma cell_at_append_left: "c \<in> set (map fst s) \<Longrightarrow> cell_at (s @ t) c = cell_at s c"
proof -
  assume "c \<in> set (map fst s)"
  then obtain v where "map_of s c = Some v"
    by (metis map_of_eq_None_iff not_Some_eq set_map)
  then show ?thesis by (simp add: cell_at_def map_add_def)
qed

lemma cell_at_append_right: "c \<notin> set (map fst s) \<Longrightarrow> cell_at (s @ t) c = cell_at t c"
proof -
  assume "c \<notin> set (map fst s)"
  then have "map_of s c = None" by (simp add: map_of_eq_None_iff)
  then show ?thesis by (simp add: cell_at_def map_add_def)
qed

lemma series_set_fresh:
  assumes "k \<notin> set (map fst s)"
  shows "series_set s k v = s @ [(k, v)]"
  using assms by (simp add: series_set_def)

lemma select_columns_Inr:
  assumes "select_columns f ls = Inr g"
  shows "columns g = ls \<and> set ls \<subseteq> set (columns f) \<and>
         rows g = map (\<lambda>r. series_select r ls) (rows f)"
proof -
  from assms have e: "filter (\<lambda>l. l \<notin> set (columns f)) ls = []"
    by (auto simp: select_columns_def split: list.splits)
  then have "set ls \<subseteq> set (columns f)" by (auto simp: filter_empty_conv)
  with assms e show ?thesis by (auto simp: select_columns_def)
qed

lemma frame_iloc_columns: "frame_iloc X inds = Inr re_X \<Longrightarrow> columns re_X = columns X"
  by (auto simp: frame_iloc_def split: sum.splits)

lemma legacy_row_labels: "legacy_row f b = Inr row \<Longrightarrow> map fst row = columns f"
  by (auto simp: legacy_row_def comp_def split: list.splits)

lemma regularized_params_labels:
  assumes lbc: "labels_by_columns ext"
    and p: "regularized_params ext X y n re_X re_y old_coeffs old_precomputed b = (evs, Inr p)"
    and cols: "columns re_X = columns X"
    and dX: "distinct (columns X)"
    and sX: "''seed'' \<notin> set (columns X)"
    and legacy: "seed_in b old_precomputed \<Longrightarrow>
       distinct (columns old_coeffs) \<and>
       set (columns old_coeffs) = insert ''seed'' (set (columns X))"
  shows "distinct (map fst p) \<and> set (map fst p) = set (columns X) \<and>
         length p = length (columns X)"
proof (cases "seed_in b old_precomputed")
  case True
  with regularized_params_Inr [OF p] obtain row where
    row: "legacy_row old_coeffs b = Inr row" and pr: "p = filter (\<lambda>(c, v). c \<noteq> ''seed'') row"
    by blast
  from legacy_row_labels [OF row] have lab: "map fst row = columns old_coeffs" .
  have mf: "map fst p = filter (\<lambda>c. c \<noteq> ''seed'') (map fst row)"
    unfolding pr by (induction row) auto
  from legacy [OF True] have d: "distinct (columns old_coeffs)"
    and s: "set (columns old_coeffs) = insert ''seed'' (set (columns X))" by simp_all
  have dp: "distinct (map fst p)" using d by (simp add: mf lab)
  have sp: "set (map fst p) = set (columns X)" using s sX by (auto simp: mf lab)
  have "length (map fst p) = card (set (map fst p))" using dp by (rule distinct_card [symmetric])
  also have "\<dots> = card (set (columns X))" by (simp only: sp)
  also have "\<dots> = length (columns X)" using dX by (rule distinct_card)
  finally have "length p = length (columns X)" by simp
  with dp sp show ?thesis by blast
next
  case False
  with regularized_params_Inr [OF p] obtain alpha where
    "fit_regularized ext re_y re_X alpha 1 = Inr p" by blast
  with lbc have "map fst p = columns re_X" unfolding labels_by_columns_def by blast
  then have mf: "map fst p = columns X" by (simp add: cols)
  then have "length p = length (columns X)" by (metis length_map)
  with mf dX show ?thesis by simp
qed

section \<open>Claims about the record of one seed\<close>

text \<open>
  Claim C7, as the code has it. Let a seed be worked on to the end, with fits that label
  their coefficients by the columns they were given and a design matrix whose column names
  are distinct and do not include \<open>seed\<close>; and let the seed either not be a legacy seed,
  or be one whose legacy cache has exactly the columns of the design matrix plus \<open>seed\<close>.
  Then the new record has exactly the columns of the design matrix plus \<open>seed\<close>, which
  holds the seed; the selected and the nonselected columns partition the columns, and
  their numbers add up to the number of columns; every nonselected column has coefficient
  0, and every selected column has the coefficient of the unregularized fit on the
  selected columns of the resample.
\<close>

theorem record_columns_partition:
  assumes run: "snd (bootstrap_seed ext X y n old_coeffs old_precomputed b) = Inr new_coeffs"
    and lbc: "labels_by_columns ext"
    and dX: "distinct (columns X)"
    and sX: "''seed'' \<notin> set (columns X)"
    and legacy: "seed_in b old_precomputed \<longrightarrow>
       distinct (columns old_coeffs) \<and>
       set (columns old_coeffs) = insert ''seed'' (set (columns X))"
  shows "\<exists>re_X re_y result_params re_X_selected selective_coeffs.
     snd (resample ext X y n b) = Inr (re_X, re_y) \<and>
     snd (regularized_params ext X y n re_X re_y old_coeffs old_precomputed b) = Inr result_params \<and>
     select_columns re_X (selected_of result_params) = Inr re_X_selected \<and>
     Fit re_y re_X_selected \<in> set (fst (bootstrap_seed ext X y n old_coeffs old_precomputed b)) \<and>
     fit ext re_y re_X_selected = Inr selective_coeffs \<and>
     set (map fst new_coeffs) = insert ''seed'' (set (columns X)) \<and>
     distinct (map fst new_coeffs) \<and>
     cell_at new_coeffs ''seed'' = Num (real b) \<and>
     set (selected_of result_params) \<union> set (nonselected_of result_params) = set (columns X) \<and>
     set (selected_of result_params) \<inter> set (nonselected_of result_params) = {} \<and>
     length (selected_of result_params) + length (nonselected_of result_params) =
       length (columns X) \<and>
     (\<forall>c \<in> set (nonselected_of result_params). cell_at new_coeffs c = Num 0) \<and>
     (\<forall>c \<in> set (selected_of result_params).
        cell_at new_coeffs c = cell_at selective_coeffs c)"
proof -
  obtain evs where full: "bootstrap_seed ext X y n old_coeffs old_precomputed b = (evs, Inr new_coeffs)"
    using run by (cases "bootstrap_seed ext X y n old_coeffs old_precomputed b") simp
  from bootstrap_seed_Inr [OF full] obtain re_X re_y e1 p e2 e3 where
    r: "resample ext X y n b = (e1, Inr (re_X, re_y))" and
    rp: "regularized_params ext X y n re_X re_y old_coeffs old_precomputed b = (e2, Inr p)" and
    rf: "refit_record ext re_X re_y p b = (e3, Inr new_coeffs)" and
    evs: "evs = Working b # e1 @ e2 @ e3"
    by blast
  from resample_Inr [OF r] obtain inds where "frame_iloc X inds = Inr re_X" by blast
  then have cols: "columns re_X = columns X" by (rule frame_iloc_columns)
  from regularized_params_labels [OF lbc rp cols dX sX] legacy
  have dp: "distinct (map fst p)" and sp: "set (map fst p) = set (columns X)"
    and lp: "length p = length (columns X)" by blast+
  from refit_record_Inr [OF rf] obtain sel_X coef where
    sc: "select_columns re_X (selected_of p) = Inr sel_X" and
    ft: "fit ext re_y sel_X = Inr coef" and
    e3: "e3 = [NewOLS re_y sel_X, Fit re_y sel_X]" and
    nc: "new_coeffs = series_set (series_select p (nonselected_of p) @ coef) ''seed'' (Num (real b))"
    by blast
  let ?sel = "selected_of p" and ?non = "nonselected_of p"
  let ?S = "series_select p ?non"
  from select_columns_Inr [OF sc] have "columns sel_X = ?sel" by simp
  with lbc ft have lc: "map fst coef = ?sel" unfolding labels_by_columns_def by metis
  have un: "set ?sel \<union> set ?non = set (columns X)"
    using selected_nonselected_union [of p] sp by simp
  have dj: "set ?sel \<inter> set ?non = {}" using dp by (rule selected_nonselected_disjoint)
  have ln: "length ?sel + length ?non = length (columns X)"
    using selected_nonselected_length [of p] lp by simp
  have lab: "map fst (?S @ coef) = ?non @ ?sel" by (simp add: map_fst_series_select lc)
  have fresh: "''seed'' \<notin> set (map fst (?S @ coef))"
    unfolding lab using un sX by auto
  have nc': "new_coeffs = (?S @ coef) @ [(''seed'', Num (real b))]"
    unfolding nc using fresh by (rule series_set_fresh)
  have labels: "map fst new_coeffs = ?non @ ?sel @ [''seed'']"
    unfolding nc' using lab by simp
  have c1: "set (map fst new_coeffs) = insert ''seed'' (set (columns X))"
    unfolding labels using un by auto
  have c2: "distinct (map fst new_coeffs)"
    unfolding labels using distinct_selected [OF dp] distinct_nonselected [OF dp] dj un sX
    by auto
  have c3: "cell_at new_coeffs ''seed'' = Num (real b)"
    unfolding nc by (rule cell_at_series_set)
  have c4: "\<forall>c \<in> set ?non. cell_at new_coeffs c = Num 0"
  proof
    fix c assume c: "c \<in> set ?non"
    then have "c \<in> set (map fst (?S @ coef))" unfolding lab by simp
    then have "cell_at new_coeffs c = cell_at (?S @ coef) c"
      unfolding nc' by (rule cell_at_append_left)
    also have "\<dots> = cell_at ?S c"
      using c by (intro cell_at_append_left) (simp add: map_fst_series_select)
    also have "\<dots> = cell_at p c" using c by (rule cell_at_series_select)
    also have "\<dots> = Num 0" using dp c by (rule nonselected_zero)
    finally show "cell_at new_coeffs c = Num 0" .
  qed
  have c5: "\<forall>c \<in> set ?sel. cell_at new_coeffs c = cell_at coef c"
  proof
    fix c assume c: "c \<in> set ?sel"
    then have "c \<in> set (map fst (?S @ coef))" unfolding lab by simp
    then have "cell_at new_coeffs c = cell_at (?S @ coef) c"
      unfolding nc' by (rule cell_at_append_left)
    also have "\<dots> = cell_at coef c"
      using c dj by (intro cell_at_append_right) (auto simp: map_fst_series_select)
    finally show "cell_at new_coeffs c = cell_at coef c" .
  qed
  have ev: "Fit re_y sel_X \<in> set (fst (bootstrap_seed ext X y n old_coeffs old_precomputed b))"
    by (simp add: full evs e3)
  have s1: "snd (resample ext X y n b) = Inr (re_X, re_y)" by (simp add: r)
  have s2: "snd (regularized_params ext X y n re_X re_y old_coeffs old_precomputed b) = Inr p"
    by (simp add: rp)
  from s1 s2 sc ev ft c1 c2 c3 un dj ln c4 c5 show ?thesis by blast
qed

theorem record_columns_partition_witness:
  "snd (bootstrap_seed example_ext example_X example_y 2 (drop_unnamed example_legacy) [Num 0] 0) =
     Inr [(''b'', Num 0), (''a_b_interaction'', Num 0), (''a'', Num 7), (''seed'', Num 0)] \<and>
   labels_by_columns example_ext \<and>
   distinct (columns example_X) \<and>
   ''seed'' \<notin> set (columns example_X) \<and>
   seed_in 0 [Num 0] \<and>
   distinct (columns (drop_unnamed example_legacy)) \<and>
   set (columns (drop_unnamed example_legacy)) = insert ''seed'' (set (columns example_X)) \<and>
   set (map fst [(''b'', Num 0), (''a_b_interaction'', Num 0), (''a'', Num 7), (''seed'', Num 0)]) =
     insert ''seed'' (set (columns example_X)) \<and>
   cell_at [(''b'', Num 0), (''a_b_interaction'', Num 0), (''a'', Num 7), (''seed'', Num 0)] ''seed'' =
     Num (real 0)"
proof -
  let ?row = "[(''b'', Num 0), (''a_b_interaction'', Num 0), (''a'', Num 7), (''seed'', Num 0)]"
  have a: "snd (bootstrap_seed example_ext example_X example_y 2 (drop_unnamed example_legacy)
      [Num 0] 0) = Inr ?row"
    by code_simp
  have b: "labels_by_columns example_ext"
    by (auto simp: labels_by_columns_def example_ext_def comp_def)
  have c: "distinct (columns example_X)" by (simp add: example_X_def)
  have d: "''seed'' \<notin> set (columns example_X)" by (simp add: example_X_def)
  have e: "seed_in 0 [Num 0]" by (simp add: seed_in_def)
  have f: "distinct (columns (drop_unnamed example_legacy))" by code_simp
  have g: "set (columns (drop_unnamed example_legacy)) = insert ''seed'' (set (columns example_X))"
    by (auto simp: drop_unnamed_def example_legacy_def example_X_def)
  from f g have h: "seed_in 0 [Num 0] \<longrightarrow>
      distinct (columns (drop_unnamed example_legacy)) \<and>
      set (columns (drop_unnamed example_legacy)) = insert ''seed'' (set (columns example_X))"
    by simp
  from record_columns_partition [OF a b c d h]
  have "set (map fst ?row) = insert ''seed'' (set (columns example_X)) \<and>
      cell_at ?row ''seed'' = Num (real 0)"
    by blast
  with a b c d e f g show ?thesis by blast
qed

text \<open>
  Claim C7, as stated, fails for a legacy seed whose legacy cache has another schema:
  with a legacy cache that has the column \<open>a\<close> only, the seed is worked on to the end
  and its record, which is written to the current cache, lacks the columns \<open>b\<close> and
  \<open>a_b_interaction\<close> of the design matrix.
\<close>

theorem record_columns_stale_legacy_counterexample:
  "columns example_X = [''a'', ''b'', ''a_b_interaction''] \<and>
   load_cache example_stale_files ''results/old/r_bootstrap_coeffs.csv'' =
     Inr (drop_unnamed example_stale_legacy, [Num 0]) \<and>
   snd (bootstrap_seed example_ext example_X example_y 2 (drop_unnamed example_stale_legacy)
          [Num 0] 0) = Inr [(''a'', Num 7), (''seed'', Num 0)] \<and>
   set (map fst [(''a'', Num 7), (''seed'', Num 0)]) \<noteq> insert ''seed'' (set (columns example_X)) \<and>
   raised (cte_boostrap example_ext (Some 1) ''r'' example_stale_files) = None \<and>
   files_after (cte_boostrap example_ext (Some 1) ''r'' example_stale_files)
     ''results/bootstrap/r_bootstrap_coeffs.csv'' =
     Some \<lparr>columns = [''Unnamed: 0'', ''a'', ''seed''],
           rows = [[(''Unnamed: 0'', Num 0), (''a'', Num 7), (''seed'', Num 0)]]\<rparr>"
  by code_simp

section \<open>Facts about legacy seeds and empty selections\<close>

lemma bootstrap_seed_unfold:
  assumes "snd (resample ext X y n b) = Inr (re_X, re_y)"
    and "snd (regularized_params ext X y n re_X re_y old_coeffs old_precomputed b) = Inr p"
  shows "bootstrap_seed ext X y n old_coeffs old_precomputed b =
           (Working b # fst (resample ext X y n b) @
              fst (regularized_params ext X y n re_X re_y old_coeffs old_precomputed b) @
              fst (refit_record ext re_X re_y p b),
            snd (refit_record ext re_X re_y p b))"
proof -
  obtain e1 where r: "resample ext X y n b = (e1, Inr (re_X, re_y))"
    using assms(1) by (cases "resample ext X y n b") simp
  obtain e2 where rp: "regularized_params ext X y n re_X re_y old_coeffs old_precomputed b =
      (e2, Inr p)"
    using assms(2)
    by (cases "regularized_params ext X y n re_X re_y old_coeffs old_precomputed b") simp
  obtain e3 res where rf: "refit_record ext re_X re_y p b = (e3, res)"
    by (cases "refit_record ext re_X re_y p b")
  show ?thesis
    by (simp add: bootstrap_seed_def and_then_def call_def r rp rf)
qed

lemma quiet_resample: "list_all quiet (fst (resample ext X y n b))"
  by (auto simp: resample_def fst_and_then snd_and_then call_def lift_def quiet_def
      split: sum.splits)

lemma quiet_refit_record: "list_all quiet (fst (refit_record ext re_X re_y p b))"
  by (auto simp: refit_record_def Let_def fst_and_then snd_and_then call_def lift_def quiet_def
      split: sum.splits)

lemma legacy_regularized_params:
  assumes "seed_in b old_precomputed"
  shows "regularized_params ext X y n re_X re_y old_coeffs old_precomputed b =
           ([], case legacy_row old_coeffs b of
                  Inl e \<Rightarrow> Inl e
                | Inr row \<Rightarrow> Inr (filter (\<lambda>(c, v). c \<noteq> ''seed'') row))"
  using assms
  by (simp add: regularized_params_def and_then_def lift_def split: sum.splits)

lemma quiet_legacy_seed:
  assumes "seed_in b old_precomputed"
  shows "list_all quiet (fst (bootstrap_seed ext X y n old_coeffs old_precomputed b))"
  using assms quiet_resample [of ext X y n b]
  by (auto simp: bootstrap_seed_def fst_and_then snd_and_then call_def
      legacy_regularized_params quiet_refit_record quiet_def split: sum.splits prod.splits)

lemma series_select_all_zero:
  assumes "list_all (\<lambda>(c, v). v = Num 0) p"
  shows "series_select p (map fst p) = p"
proof -
  have "\<And>c v. (c, v) \<in> set p \<Longrightarrow> cell_at p c = v"
  proof -
    fix c v assume cv: "(c, v) \<in> set p"
    then obtain w where w: "map_of p c = Some w"
      by (metis weak_map_of_SomeI)
    then have "(c, w) \<in> set p" by (rule map_of_SomeD)
    with assms cv have "w = Num 0" "v = Num 0" by (auto simp: list_all_iff)
    then have "w = v" by simp
    with w show "cell_at p c = v" by (simp add: cell_at_def)
  qed
  then have "map (\<lambda>x. (fst x, cell_at p (fst x))) p = p"
    by (intro map_idI) (auto simp: prod_eq_iff)
  then show ?thesis by (simp add: series_select_def comp_def)
qed

lemma all_zero_selection:
  assumes "list_all (\<lambda>(c, v). v = Num 0) p"
  shows "selected_of p = [] \<and> nonselected_of p = map fst p"
proof -
  from assms have "filter (\<lambda>(c, v). v \<noteq> Num 0) p = []"
    by (auto simp: filter_empty_conv list_all_iff)
  moreover from assms have "filter (\<lambda>(c, v). v = Num 0) p = p"
    by (auto simp: filter_id_conv list_all_iff)
  ultimately show ?thesis by (simp add: selected_of_def nonselected_of_def)
qed

section \<open>Claims about legacy seeds and empty selections\<close>

text \<open>
  Claim C2, as the code has it. For a seed of the Legacy Cache that is worked on, neither
  Grid Search nor the regularized fit is invoked. The legacy record without its seed takes
  the place of the regularized coefficient vector: when the seed is worked on to the end,
  the unregularized fit has been invoked on the resample restricted to the columns
  whose legacy coefficient is not zero, and the new record holds the legacy zeros, then
  the coefficients of that fit, then the seed.
\<close>

theorem legacy_seed_is_refit:
  assumes "seed_in b old_precomputed"
  shows "list_all quiet (fst (bootstrap_seed ext X y n old_coeffs old_precomputed b)) \<and>
    (\<forall>new_coeffs.
       snd (bootstrap_seed ext X y n old_coeffs old_precomputed b) = Inr new_coeffs \<longrightarrow>
       (\<exists>re_X re_y row result_params re_X_selected selective_coeffs.
          snd (resample ext X y n b) = Inr (re_X, re_y) \<and>
          legacy_row old_coeffs b = Inr row \<and>
          result_params = filter (\<lambda>(c, v). c \<noteq> ''seed'') row \<and>
          select_columns re_X (selected_of result_params) = Inr re_X_selected \<and>
          Fit re_y re_X_selected
            \<in> set (fst (bootstrap_seed ext X y n old_coeffs old_precomputed b)) \<and>
          fit ext re_y re_X_selected = Inr selective_coeffs \<and>
          new_coeffs =
            series_set
              (series_select result_params (nonselected_of result_params) @ selective_coeffs)
              ''seed'' (Num (real b))))"
proof (intro conjI allI impI)
  show "list_all quiet (fst (bootstrap_seed ext X y n old_coeffs old_precomputed b))"
    using assms by (rule quiet_legacy_seed)
next
  fix new_coeffs
  assume run: "snd (bootstrap_seed ext X y n old_coeffs old_precomputed b) = Inr new_coeffs"
  obtain evs where full: "bootstrap_seed ext X y n old_coeffs old_precomputed b = (evs, Inr new_coeffs)"
    using run by (cases "bootstrap_seed ext X y n old_coeffs old_precomputed b") simp
  from bootstrap_seed_Inr [OF full] obtain re_X re_y e1 p e2 e3 where
    r: "resample ext X y n b = (e1, Inr (re_X, re_y))" and
    rp: "regularized_params ext X y n re_X re_y old_coeffs old_precomputed b = (e2, Inr p)" and
    rf: "refit_record ext re_X re_y p b = (e3, Inr new_coeffs)" and
    evs: "evs = Working b # e1 @ e2 @ e3"
    by blast
  from regularized_params_Inr [OF rp] assms obtain row where
    row: "legacy_row old_coeffs b = Inr row" and p: "p = filter (\<lambda>(c, v). c \<noteq> ''seed'') row"
    by blast
  from refit_record_Inr [OF rf] obtain sel_X coef where
    sc: "select_columns re_X (selected_of p) = Inr sel_X" and
    ft: "fit ext re_y sel_X = Inr coef" and
    e3: "e3 = [NewOLS re_y sel_X, Fit re_y sel_X]" and
    nc: "new_coeffs = series_set (series_select p (nonselected_of p) @ coef) ''seed'' (Num (real b))"
    by blast
  have ev: "Fit re_y sel_X \<in> set (fst (bootstrap_seed ext X y n old_coeffs old_precomputed b))"
    by (simp add: full evs e3)
  have s1: "snd (resample ext X y n b) = Inr (re_X, re_y)" by (simp add: r)
  from s1 row p sc ev ft nc
  show "\<exists>re_X re_y row result_params re_X_selected selective_coeffs.
          snd (resample ext X y n b) = Inr (re_X, re_y) \<and>
          legacy_row old_coeffs b = Inr row \<and>
          result_params = filter (\<lambda>(c, v). c \<noteq> ''seed'') row \<and>
          select_columns re_X (selected_of result_params) = Inr re_X_selected \<and>
          Fit re_y re_X_selected
            \<in> set (fst (bootstrap_seed ext X y n old_coeffs old_precomputed b)) \<and>
          fit ext re_y re_X_selected = Inr selective_coeffs \<and>
          new_coeffs =
            series_set
              (series_select result_params (nonselected_of result_params) @ selective_coeffs)
              ''seed'' (Num (real b))"
    by blast
qed

theorem legacy_seed_is_refit_witness:
  "seed_in 0 [Num 0] \<and>
   snd (bootstrap_seed example_ext example_X example_y 2 (drop_unnamed example_legacy) [Num 0] 0) =
     Inr [(''b'', Num 0), (''a_b_interaction'', Num 0), (''a'', Num 7), (''seed'', Num 0)] \<and>
   list_all quiet
     (fst (bootstrap_seed example_ext example_X example_y 2 (drop_unnamed example_legacy)
        [Num 0] 0)) \<and>
   list_ex is_refit
     (fst (bootstrap_seed example_ext example_X example_y 2 (drop_unnamed example_legacy)
        [Num 0] 0))"
proof -
  let ?run = "bootstrap_seed example_ext example_X example_y 2 (drop_unnamed example_legacy)
      [Num 0] 0"
  have a: "seed_in 0 [Num 0]" by (simp add: seed_in_def)
  have b: "snd ?run =
      Inr [(''b'', Num 0), (''a_b_interaction'', Num 0), (''a'', Num 7), (''seed'', Num 0)]"
    by code_simp
  note inst = legacy_seed_is_refit [OF a, of example_ext example_X example_y 2
      "drop_unnamed example_legacy"]
  from inst have c: "list_all quiet (fst ?run)" by (rule conjunct1)
  from inst b obtain re_y re_X_selected where "Fit re_y re_X_selected \<in> set (fst ?run)"
    by blast
  then have d: "list_ex is_refit (fst ?run)"
    unfolding list_ex_iff by (intro bexI [of _ "Fit re_y re_X_selected"]) simp_all
  from a b c d show ?thesis by blast
qed

text \<open>
  Claim C2, as stated, fails: the legacy record of seed 0 has coefficient 2 for column
  \<open>a\<close>, the record written to the current cache has the refit coefficient 7 there, and
  the unregularized fit was invoked for that seed.
\<close>

theorem legacy_copy_counterexample:
  "load_cache example_legacy_files ''results/old/r_bootstrap_coeffs.csv'' =
     Inr (drop_unnamed example_legacy, [Num 0]) \<and>
   load_cache example_legacy_files ''results/bootstrap/r_bootstrap_coeffs.csv'' =
     Inr (empty_frame, []) \<and>
   legacy_row (drop_unnamed example_legacy) 0 =
     Inr [(''a'', Num 2), (''b'', Num 0), (''a_b_interaction'', Num 0), (''seed'', Num 0)] \<and>
   files_after (cte_boostrap example_ext (Some 1) ''r'' example_legacy_files)
     ''results/bootstrap/r_bootstrap_coeffs.csv'' =
     Some \<lparr>columns = [''Unnamed: 0'', ''b'', ''a_b_interaction'', ''a'', ''seed''],
           rows = [[(''Unnamed: 0'', Num 0), (''b'', Num 0), (''a_b_interaction'', Num 0),
                    (''a'', Num 7), (''seed'', Num 0)]]\<rparr> \<and>
   list_ex is_refit (trace (cte_boostrap example_ext (Some 1) ''r'' example_legacy_files))"
  by code_simp

text \<open>
  Claim C4, as the code has it. For a seed whose regularized or legacy coefficient vector
  is entirely zero, the selected set is empty and every column is nonselected; the
  unregularized fit is not skipped: a model is built on the resample restricted to no
  column. When building or fitting that model raises, the exception ends the seed and
  no record is produced; when the fit returns coefficients, the record is the zero of every
  column, followed by what the fit returned and the seed.
\<close>

theorem empty_selection_is_refit:
  assumes "snd (resample ext X y n b) = Inr (re_X, re_y)"
    and "snd (regularized_params ext X y n re_X re_y old_coeffs old_precomputed b) =
           Inr result_params"
    and "list_all (\<lambda>(c, v). v = Num 0) result_params"
  shows "selected_of result_params = [] \<and>
     nonselected_of result_params = map fst result_params \<and>
     NewOLS re_y \<lparr>columns = [], rows = map (\<lambda>r. []) (rows re_X)\<rparr>
       \<in> set (fst (bootstrap_seed ext X y n old_coeffs old_precomputed b)) \<and>
     (\<forall>e. OLS ext re_y \<lparr>columns = [], rows = map (\<lambda>r. []) (rows re_X)\<rparr> = Inl e \<longrightarrow>
        snd (bootstrap_seed ext X y n old_coeffs old_precomputed b) = Inl e) \<and>
     (OLS ext re_y \<lparr>columns = [], rows = map (\<lambda>r. []) (rows re_X)\<rparr> = Inr () \<longrightarrow>
        Fit re_y \<lparr>columns = [], rows = map (\<lambda>r. []) (rows re_X)\<rparr>
          \<in> set (fst (bootstrap_seed ext X y n old_coeffs old_precomputed b)) \<and>
        (\<forall>e. fit ext re_y \<lparr>columns = [], rows = map (\<lambda>r. []) (rows re_X)\<rparr> = Inl e \<longrightarrow>
           snd (bootstrap_seed ext X y n old_coeffs old_precomputed b) = Inl e) \<and>
        (\<forall>selective_coeffs.
           fit ext re_y \<lparr>columns = [], rows = map (\<lambda>r. []) (rows re_X)\<rparr> =
             Inr selective_coeffs \<longrightarrow>
           snd (bootstrap_seed ext X y n old_coeffs old_precomputed b) =
             Inr (series_set (result_params @ selective_coeffs) ''seed'' (Num (real b)))))"
proof -
  let ?E = "\<lparr>columns = [], rows = map (\<lambda>r. []) (rows re_X)\<rparr>"
  let ?run = "bootstrap_seed ext X y n old_coeffs old_precomputed b"
  note sel = all_zero_selection [OF assms(3)]
  note run = bootstrap_seed_unfold [OF assms(1,2)]
  have sc: "select_columns re_X [] = Inr ?E"
    by (simp add: select_columns_def series_select_def)
  have zs: "series_select result_params (map fst result_params) = result_params"
    using assms(3) by (rule series_select_all_zero)
  have rf: "refit_record ext re_X re_y result_params b =
      (case OLS ext re_y ?E of
         Inl e \<Rightarrow> ([NewOLS re_y ?E], Inl e)
       | Inr u \<Rightarrow>
           (case fit ext re_y ?E of
              Inl e \<Rightarrow> ([NewOLS re_y ?E, Fit re_y ?E], Inl e)
            | Inr selective_coeffs \<Rightarrow>
                ([NewOLS re_y ?E, Fit re_y ?E],
                 Inr (series_set (result_params @ selective_coeffs) ''seed'' (Num (real b))))))"
    by (simp add: refit_record_def Let_def sel sc zs and_then_def call_def lift_def
        split: sum.splits)
  have a: "NewOLS re_y ?E \<in> set (fst ?run)"
    by (simp add: run rf split: sum.splits)
  have b: "\<forall>e. OLS ext re_y ?E = Inl e \<longrightarrow> snd ?run = Inl e"
    by (simp add: run rf)
  have c: "OLS ext re_y ?E = Inr () \<longrightarrow>
      Fit re_y ?E \<in> set (fst ?run) \<and>
      (\<forall>e. fit ext re_y ?E = Inl e \<longrightarrow> snd ?run = Inl e) \<and>
      (\<forall>selective_coeffs. fit ext re_y ?E = Inr selective_coeffs \<longrightarrow>
         snd ?run = Inr (series_set (result_params @ selective_coeffs) ''seed'' (Num (real b))))"
    by (simp add: run rf split: sum.splits)
  from sel a b c show ?thesis by blast
qed

theorem empty_selection_is_refit_witness:
  "snd (resample example_ext_zero example_X example_y 2 0) = Inr (example_X, example_y) \<and>
   snd (regularized_params example_ext_zero example_X example_y 2 example_X example_y
          empty_frame [] 0) =
     Inr [(''a'', Num 0), (''b'', Num 0), (''a_b_interaction'', Num 0)] \<and>
   list_all (\<lambda>(c, v). v = Num 0) [(''a'', Num 0), (''b'', Num 0), (''a_b_interaction'', Num 0)] \<and>
   OLS example_ext_zero example_y \<lparr>columns = [], rows = map (\<lambda>r. []) (rows example_X)\<rparr> =
     Inr () \<and>
   fit example_ext_zero example_y \<lparr>columns = [], rows = map (\<lambda>r. []) (rows example_X)\<rparr> =
     Inr [] \<and>
   snd (bootstrap_seed example_ext_zero example_X example_y 2 empty_frame [] 0) =
     Inr [(''a'', Num 0), (''b'', Num 0), (''a_b_interaction'', Num 0), (''seed'', Num 0)]"
proof -
  let ?p = "[(''a'', Num 0), (''b'', Num 0), (''a_b_interaction'', Num 0)]"
  let ?E = "\<lparr>columns = [], rows = map (\<lambda>r. []) (rows example_X)\<rparr>"
  have a: "snd (resample example_ext_zero example_X example_y 2 0) = Inr (example_X, example_y)"
    by code_simp
  have b: "snd (regularized_params example_ext_zero example_X example_y 2 example_X example_y
      empty_frame [] 0) = Inr ?p"
    by code_simp
  have c: "list_all (\<lambda>(c, v). v = Num 0) ?p" by simp
  have d: "OLS example_ext_zero example_y ?E = Inr ()"
    by (simp add: example_ext_zero_def example_ext_def)
  have e: "fit example_ext_zero example_y ?E = Inr []"
    by (simp add: example_ext_zero_def example_ext_def)
  from empty_selection_is_refit [OF a b c] d e
  have "snd (bootstrap_seed example_ext_zero example_X example_y 2 empty_frame [] 0) =
      Inr (series_set (?p @ []) ''seed'' (Num (real 0)))"
    by blast
  then have "snd (bootstrap_seed example_ext_zero example_X example_y 2 empty_frame [] 0) =
      Inr [(''a'', Num 0), (''b'', Num 0), (''a_b_interaction'', Num 0), (''seed'', Num 0)]"
    by (simp add: series_set_def)
  with a b c d e show ?thesis by blast
qed

text \<open>
  Claim C4, as stated, fails: with a regularized vector that is entirely zero, the
  unregularized fit is invoked all the same, on a design without columns; and when that
  fit rejects such a design, its exception ends the seed.
\<close>

theorem empty_selection_counterexample:
  "snd (regularized_params example_ext_zero example_X example_y 2 example_X example_y
          empty_frame [] 0) =
     Inr [(''a'', Num 0), (''b'', Num 0), (''a_b_interaction'', Num 0)] \<and>
   selected_of [(''a'', Num 0), (''b'', Num 0), (''a_b_interaction'', Num 0)] = [] \<and>
   list_ex is_refit (fst (bootstrap_seed example_ext_zero example_X example_y 2 empty_frame [] 0)) \<and>
   snd (regularized_params example_ext_zero_raising example_X example_y 2 example_X example_y
          empty_frame [] 0) =
     Inr [(''a'', Num 0), (''b'', Num 0), (''a_b_interaction'', Num 0)] \<and>
   list_ex is_refit
     (fst (bootstrap_seed example_ext_zero_raising example_X example_y 2 empty_frame [] 0)) \<and>
   snd (bootstrap_seed example_ext_zero_raising example_X example_y 2 empty_frame [] 0) =
     Inl (ExternalError ''zero-size array'')"
  by code_simp

section \<open>Claims about the orchestrator\<close>

lemma resolve_response_nonempty:
  "resolve_response arg = Inr responses \<Longrightarrow> responses \<noteq> []"
  by (auto simp: resolve_response_def all_responses_def Let_def split: if_splits)

lemma call_cte_bootstrap_raises:
  "call_cte_bootstrap ext response fs =
     \<lparr>files_after = fs, trace = [], raised = Some (NameError ''cte_bootstrap'')\<rparr>"
  by (simp add: call_cte_bootstrap_def module_functions_def)

lemma worked_seeds_report_or_refit:
  "worked_seeds (trace (report_or_refit ext refit_flag response fs)) = []"
  by (auto simp: report_or_refit_def Let_def finish_def call_def lift_def and_then_def
      worked_seeds_append split: sum.splits prod.splits option.splits)

lemma main_loop_bootstrap_raises:
  assumes "responses \<noteq> []"
  shows "raised (main_loop ext refit_flag True responses fs) \<noteq> None \<and>
         worked_seeds (trace (main_loop ext refit_flag True responses fs)) = []"
proof -
  from assms obtain response rest where r: "responses = response # rest"
    by (cases responses) auto
  show ?thesis
    using worked_seeds_report_or_refit [of ext refit_flag response fs]
    by (auto simp: r then_run_def Let_def call_cte_bootstrap_raises worked_seeds_append
        split: option.splits)
qed

lemma main_bootstrap_raises:
  assumes "str2bool (PyStr (arg_bootstrap a)) = Inr True"
  shows "raised (main ext a fs) \<noteq> None \<and> worked_seeds (trace (main ext a fs)) = []"
  using assms main_loop_bootstrap_raises [OF resolve_response_nonempty]
  by (auto simp: main_def Let_def split: sum.splits)

text \<open>
  Claim C3 describes what the program is meant to do and does not: the call on line 184
  names \<^verbatim>\<open>cte_bootstrap\<close>, and the function defined on line 24 is \<^verbatim>\<open>cte_boostrap\<close>. With the
  bootstrap flag \<open>True\<close>, the selector \<open>oral\<close> and the stored table of that response in
  place, \<^verbatim>\<open>main\<close> reads the table and then raises \<^verbatim>\<open>NameError\<close>; no seed is worked on.
  Moreover the loop bound \<^verbatim>\<open>num_bootstrap_samples\<close> is bound in \<^verbatim>\<open>main\<close> only, so the
  bootstrap function would not find it among the module's globals.
\<close>

theorem bootstrap_call_name_error:
  "str2bool (PyStr ''True'') = Inr True \<and>
   resolve_response ''oral'' = Inr [''Yr04_oral_language''] \<and>
   map_of module_functions ''cte_bootstrap'' = None \<and>
   map_of module_variables ''num_bootstrap_samples'' = None \<and>
   raised (main example_ext
     \<lparr>arg_refit = ''False'', arg_bootstrap = ''True'', arg_response = ''oral''\<rparr>
     example_results_files) = Some (NameError ''cte_bootstrap'') \<and>
   trace (main example_ext
     \<lparr>arg_refit = ''False'', arg_bootstrap = ''True'', arg_response = ''oral''\<rparr>
     example_results_files) = [RandomSeed 186, ReadCsv ''results/Yr04_oral_language.csv'']"
  by code_simp

end
